theory Spec2Isabelle
  imports Main "HOL-Library.Word"
begin

unbundle bit_operations_syntax

section \<open>Machine types and outcomes\<close>

type_synonym u8 = "8 word"
type_synonym u16 = "16 word"
type_synonym u32 = "32 word"
type_synonym u64 = "64 word"
type_synonym virtio_phys_addr_t = "64 word"

text \<open>
  A C \<open>int\<close> variable is an \<open>int\<close> here; \<open>to_int32\<close> is the value a 32-bit
  two's complement \<open>int\<close> holds after an unsigned 32-bit computation is stored in it
  (\<open>read_size += desc.len\<close>, \<open>offset -= desc.len\<close>, \<open>len = read_size - sizeof(h)\<close>).
\<close>

definition to_int32 :: "int \<Rightarrow> int" where
  "to_int32 x = sint (word_of_int x :: u32)"

text \<open>C's \<open>/\<close> on \<open>int\<close> truncates towards zero.\<close>

definition c_div :: "int \<Rightarrow> int \<Rightarrow> int" where
  "c_div a b = sgn a * sgn b * (\<bar>a\<bar> div \<bar>b\<bar>)"

text \<open>
  What a call can end in besides returning: a failed \<open>assert\<close>, a call of \<open>abort()\<close>,
  or an access outside the object a pointer points into. A call that never returns is
  \<open>None\<close> of the enclosing option.
\<close>

datatype fault = Assert_failed | Abort_called | Out_of_bounds

type_synonym 'a outcome = "(fault + 'a) option"

section \<open>Guest memory and the interrupt line\<close>

text \<open>
  The simulator side a device works on: the guest-physical memory behind
  \<open>s->sim->debug_mmu\<close>, the level of the line behind \<open>s->irq\<close>, and the stores and
  \<open>set_irq\<close> calls made so far, in program order.
\<close>

datatype event =
    Store8 u64 u8
  | Store16 u64 u16
  | Store32 u64 u32
  | Set_irq bool

record simif =
  dram :: "u64 \<Rightarrow> u8"
  irq_level :: bool
  events :: "event list"

text \<open>Little-endian value of a byte sequence, least significant byte first.\<close>

definition le_word :: "u8 list \<Rightarrow> 'a::len word" where
  "le_word bs = foldr (\<lambda>b w. ucast b OR push_bit 8 w) bs 0"

text \<open>The \<open>n\<close> low bytes of a word, least significant first.\<close>

definition le_bytes :: "nat \<Rightarrow> 'a::len word \<Rightarrow> u8 list" where
  "le_bytes n w = map (\<lambda>i. ucast (drop_bit (8 * i) w)) [0..<n]"

text \<open>
  Modelled from the spec: \<open>mmu_t::load<T>\<close> and \<open>mmu_t::store<T>\<close> of the simulator
  (riscv/mmu.h is not part of the sources), each a single little-endian access at the
  guest-physical address.
\<close>

definition load_u8 :: "simif \<Rightarrow> u64 \<Rightarrow> u8" where
  "load_u8 sim a = dram sim a"

definition load_u16 :: "simif \<Rightarrow> u64 \<Rightarrow> u16" where
  "load_u16 sim a = le_word [dram sim a, dram sim (a + 1)]"

definition load_u32 :: "simif \<Rightarrow> u64 \<Rightarrow> u32" where
  "load_u32 sim a = le_word [dram sim a, dram sim (a + 1), dram sim (a + 2), dram sim (a + 3)]"

definition poke :: "(u64 \<Rightarrow> u8) \<Rightarrow> u64 \<Rightarrow> u8 list \<Rightarrow> (u64 \<Rightarrow> u8)" where
  "poke m a bs = fold (\<lambda>i m'. m'(a + of_nat i := bs ! i)) [0..<length bs] m"

definition store_u8 :: "simif \<Rightarrow> u64 \<Rightarrow> u8 \<Rightarrow> simif" where
  "store_u8 sim a v = sim\<lparr>dram := (dram sim)(a := v), events := events sim @ [Store8 a v]\<rparr>"

definition store_u16 :: "simif \<Rightarrow> u64 \<Rightarrow> u16 \<Rightarrow> simif" where
  "store_u16 sim a v =
     sim\<lparr>dram := poke (dram sim) a (le_bytes 2 v), events := events sim @ [Store16 a v]\<rparr>"

definition store_u32 :: "simif \<Rightarrow> u64 \<Rightarrow> u32 \<Rightarrow> simif" where
  "store_u32 sim a v =
     sim\<lparr>dram := poke (dram sim) a (le_bytes 4 v), events := events sim @ [Store32 a v]\<rparr>"

text \<open>
  Modelled from the spec: \<open>set_irq\<close> of the \<open>IRQSpike\<close> line (virtio.h is not part of
  the sources): \<open>raise(level)\<close> drives the interrupt-controller line.
\<close>

definition set_irq :: "simif \<Rightarrow> bool \<Rightarrow> simif" where
  "set_irq sim level = sim\<lparr>irq_level := level, events := events sim @ [Set_irq level]\<rparr>"

definition virtio_read16 :: "simif \<Rightarrow> virtio_phys_addr_t \<Rightarrow> u16" where
  "virtio_read16 sim addr = load_u16 sim addr"

definition virtio_write16 :: "simif \<Rightarrow> virtio_phys_addr_t \<Rightarrow> u16 \<Rightarrow> simif" where
  "virtio_write16 sim addr val = store_u16 sim addr val"

definition virtio_write32 :: "simif \<Rightarrow> virtio_phys_addr_t \<Rightarrow> u32 \<Rightarrow> simif" where
  "virtio_write32 sim addr val = store_u32 sim addr val"

section \<open>Copies between host buffers and guest memory\<close>

text \<open>
  Modelled from the spec: \<open>VIRTIO_PAGE_SIZE\<close> (virtio.h is not part of the sources):
  copies split at 4 KiB.
\<close>

definition VIRTIO_PAGE_SIZE :: u64 where
  "VIRTIO_PAGE_SIZE = 4096"

text \<open>
  \<open>memcpy_from_ram_intrapage\<close>, the byte-wise branch (\<open>OPT_MEMCPY_RAM\<close> is not
  defined): the loop state is \<open>count\<close>, \<open>l\<close> and the bytes written to \<open>buf[0..l)\<close>.
\<close>

function from_ram_loop :: "simif \<Rightarrow> u64 \<Rightarrow> int \<Rightarrow> int \<Rightarrow> u8 list \<Rightarrow> u8 list" where
  "from_ram_loop sim addr count l buf =
     (if count > 0
      then from_ram_loop sim addr (count - 1) (l + 1) (buf @ [load_u8 sim (addr + word_of_int l)])
      else buf)"
  by pat_completeness auto
termination
  by (relation "measure (\<lambda>(sim, addr, count, l, buf). nat count)") auto

definition memcpy_from_ram_intrapage :: "simif \<Rightarrow> u64 \<Rightarrow> int \<Rightarrow> u8 list" where
  "memcpy_from_ram_intrapage sim addr count = from_ram_loop sim addr count 0 []"

text \<open>
  \<open>memcpy_to_ram_intrapage\<close> reads \<open>buf[0..count)\<close>; its callers pass a buffer of at
  least \<open>count\<close> bytes.
\<close>

function to_ram_loop :: "simif \<Rightarrow> u64 \<Rightarrow> u8 list \<Rightarrow> int \<Rightarrow> int \<Rightarrow> simif" where
  "to_ram_loop sim addr buf count l =
     (if count > 0
      then to_ram_loop (store_u8 sim (addr + word_of_int l) (buf ! nat l)) addr buf (count - 1) (l + 1)
      else sim)"
  by pat_completeness auto
termination
  by (relation "measure (\<lambda>(sim, addr, buf, count, l). nat count)") auto

definition memcpy_to_ram_intrapage :: "simif \<Rightarrow> u64 \<Rightarrow> u8 list \<Rightarrow> int \<Rightarrow> simif" where
  "memcpy_to_ram_intrapage sim addr buf count = to_ram_loop sim addr buf count 0"

definition page_rest :: "u64 \<Rightarrow> int" where
  "page_rest addr = uint (VIRTIO_PAGE_SIZE - (addr AND (VIRTIO_PAGE_SIZE - 1)))"

lemma page_rest_pos: "0 < page_rest addr"
proof -
  define w where "w = (4096 :: u64) - (addr AND 4095)"
  have "addr AND 4095 \<le> 4095" by (rule word_and_le1)
  then have "addr AND 4095 \<noteq> 4096" by auto
  then have "w \<noteq> 0" by (simp add: w_def)
  then have "uint w \<noteq> 0" by (simp only: uint_0_iff not_False_eq_True)
  moreover have "0 \<le> uint w" by simp
  ultimately have "0 < uint w" by linarith
  then show ?thesis
    by (simp add: page_rest_def VIRTIO_PAGE_SIZE_def w_def)
qed

function virtio_memcpy_from_ram :: "simif \<Rightarrow> u64 \<Rightarrow> int \<Rightarrow> u8 list" where
  "virtio_memcpy_from_ram sim addr count =
     (if count > 0
      then let l = min count (page_rest addr)
           in memcpy_from_ram_intrapage sim addr l
              @ virtio_memcpy_from_ram sim (addr + word_of_int l) (count - l)
      else [])"
  by pat_completeness auto
termination
proof (relation "measure (\<lambda>(sim, addr, count). nat count)", goal_cases)
  case 1
  show ?case by simp
next
  case (2 sim addr count l)
  then show ?case using page_rest_pos [of addr] by auto
qed

function virtio_memcpy_to_ram :: "simif \<Rightarrow> u64 \<Rightarrow> u8 list \<Rightarrow> int \<Rightarrow> simif" where
  "virtio_memcpy_to_ram sim addr buf count =
     (if count > 0
      then let l = min count (page_rest addr)
           in virtio_memcpy_to_ram (memcpy_to_ram_intrapage sim addr buf l)
                (addr + word_of_int l) (drop (nat l) buf) (count - l)
      else sim)"
  by pat_completeness auto
termination
proof (relation "measure (\<lambda>(sim, addr, buf, count). nat count)", goal_cases)
  case 1
  show ?case by simp
next
  case (2 sim addr buf count l)
  then show ?case using page_rest_pos [of addr] by auto
qed

declare from_ram_loop.simps [simp del] to_ram_loop.simps [simp del]
declare virtio_memcpy_from_ram.simps [simp del] virtio_memcpy_to_ram.simps [simp del]

section \<open>Device state\<close>

definition MAX_QUEUE :: nat where
  "MAX_QUEUE = 8"

definition MAX_CONFIG_SPACE_SIZE :: nat where
  "MAX_CONFIG_SPACE_SIZE = 256"

definition MAX_QUEUE_NUM :: u32 where
  "MAX_QUEUE_NUM = 16"

record QueueState =
  ready :: u32
  num :: u32
  last_avail_idx :: u16
  desc_addr :: virtio_phys_addr_t
  avail_addr :: virtio_phys_addr_t
  used_addr :: virtio_phys_addr_t
  manual_recv :: bool

definition VRING_DESC_F_NEXT :: u16 where
  "VRING_DESC_F_NEXT = 1"

definition VRING_DESC_F_WRITE :: u16 where
  "VRING_DESC_F_WRITE = 2"

record VIRTIODesc =
  d_addr :: u64
  d_len :: u32
  d_flags :: u16
  d_next :: u16

text \<open>
  \<open>struct VIRTIODevice\<close>. The array \<open>queue[MAX_QUEUE]\<close> is a function of the index,
  read and written below \<open>MAX_QUEUE\<close> only; \<open>sim\<close> and \<open>irq\<close> are the \<open>simif\<close>
  passed along; \<open>device_recv\<close> and \<open>config_write\<close> are parameters of the functions
  that call them.
\<close>

record VIRTIODevice =
  int_status :: u32
  status :: u32
  device_features_sel :: u32
  queue_sel :: u32
  queue :: "nat \<Rightarrow> QueueState"
  device_id :: u32
  vendor_id :: u32
  device_features :: u32
  config_space_size :: u32
  config_space :: "u8 list"

section \<open>The virtqueue engine\<close>

definition get_desc :: "'a VIRTIODevice_scheme \<Rightarrow> simif \<Rightarrow> nat \<Rightarrow> int \<Rightarrow> VIRTIODesc" where
  "get_desc s sim queue_idx desc_idx =
     (let bs = virtio_memcpy_from_ram sim
                 (desc_addr (queue s queue_idx) + word_of_int desc_idx * 16) 16
      in \<lparr>d_addr = le_word (take 8 bs),
          d_len = le_word (take 4 (drop 8 bs)),
          d_flags = le_word (take 2 (drop 12 bs)),
          d_next = le_word (take 2 (drop 14 bs))\<rparr>)"

text \<open>\<open>buf\<close> with \<open>bytes\<close> written at position \<open>pos\<close>.\<close>

definition blit :: "u8 list \<Rightarrow> nat \<Rightarrow> u8 list \<Rightarrow> u8 list" where
  "blit buf pos bytes = take pos buf @ bytes @ drop (pos + length bytes) buf"

text \<open>
  \<open>memcpy_to_from_queue\<close>. Its three loops are three functions, each ending in the
  next; the result is the returned \<open>int\<close>, the buffer and the memory. \<open>buf\<close> is the
  object the C pointer points into and \<open>pos\<close> the pointer's offset in it, which
  \<open>buf += l\<close> moves back when \<open>l\<close> is negative: a copy of \<open>l > 0\<close> bytes that
  would begin before the start of the object or pass its end is \<open>Out_of_bounds\<close>; with
  \<open>l \<le> 0\<close> nothing is copied. The third loop:
\<close>

partial_function (option) copy_loop ::
  "'a VIRTIODevice_scheme \<Rightarrow> nat \<Rightarrow> bool \<Rightarrow> u16 \<Rightarrow> simif \<Rightarrow> u8 list \<Rightarrow> int \<Rightarrow>
   VIRTIODesc \<Rightarrow> int \<Rightarrow> int \<Rightarrow> (int \<times> u8 list \<times> simif) outcome" where
  "copy_loop s queue_idx to_queue f_write_flag sim buf pos desc offset count =
     (let l = min count (to_int32 (uint (d_len desc) - offset))
      in if 0 < l \<and> (pos < 0 \<or> int (length buf) < pos + l) then Some (Inl Out_of_bounds)
         else
           let sim' = (if to_queue
                       then virtio_memcpy_to_ram sim (d_addr desc + word_of_int offset)
                              (drop (nat pos) buf) l
                       else sim);
               buf' = (if to_queue then buf
                       else blit buf (nat pos)
                              (virtio_memcpy_from_ram sim (d_addr desc + word_of_int offset) l));
               count' = count - l
           in if count' = 0 then Some (Inr (0, buf', sim'))
              else
                let offset' = to_int32 (offset + l);
                    pos' = pos + l
                in if (word_of_int offset' :: u32) = d_len desc
                   then
                     if d_flags desc AND VRING_DESC_F_NEXT = 0 then Some (Inr (- 1, buf', sim'))
                     else
                       let desc' = get_desc s sim' queue_idx (uint (d_next desc))
                       in if d_flags desc' AND VRING_DESC_F_WRITE \<noteq> f_write_flag
                          then Some (Inr (- 1, buf', sim'))
                          else copy_loop s queue_idx to_queue f_write_flag sim' buf' pos'
                                 desc' 0 count'
                   else copy_loop s queue_idx to_queue f_write_flag sim' buf' pos'
                          desc offset' count')"

text \<open>The second loop: find the descriptor at \<open>offset\<close>.\<close>

partial_function (option) seek_loop ::
  "'a VIRTIODevice_scheme \<Rightarrow> nat \<Rightarrow> bool \<Rightarrow> u16 \<Rightarrow> simif \<Rightarrow> u8 list \<Rightarrow>
   VIRTIODesc \<Rightarrow> int \<Rightarrow> int \<Rightarrow> (int \<times> u8 list \<times> simif) outcome" where
  "seek_loop s queue_idx to_queue f_write_flag sim buf desc offset count =
     (if d_flags desc AND VRING_DESC_F_WRITE \<noteq> f_write_flag then Some (Inr (- 1, buf, sim))
      else if (word_of_int offset :: u32) < d_len desc
      then copy_loop s queue_idx to_queue f_write_flag sim buf 0 desc offset count
      else if d_flags desc AND VRING_DESC_F_NEXT = 0 then Some (Inr (- 1, buf, sim))
      else seek_loop s queue_idx to_queue f_write_flag sim buf
             (get_desc s sim queue_idx (uint (d_next desc)))
             (to_int32 (offset - uint (d_len desc))) count)"

text \<open>The first loop, entered when \<open>to_queue\<close>: find the first write descriptor.\<close>

partial_function (option) find_write_loop ::
  "'a VIRTIODevice_scheme \<Rightarrow> nat \<Rightarrow> simif \<Rightarrow> u8 list \<Rightarrow>
   VIRTIODesc \<Rightarrow> int \<Rightarrow> int \<Rightarrow> (int \<times> u8 list \<times> simif) outcome" where
  "find_write_loop s queue_idx sim buf desc offset count =
     (if d_flags desc AND VRING_DESC_F_WRITE = VRING_DESC_F_WRITE
      then seek_loop s queue_idx True VRING_DESC_F_WRITE sim buf desc offset count
      else if d_flags desc AND VRING_DESC_F_NEXT = 0 then Some (Inr (- 1, buf, sim))
      else find_write_loop s queue_idx sim buf
             (get_desc s sim queue_idx (uint (d_next desc))) offset count)"

declare copy_loop.simps [code] seek_loop.simps [code] find_write_loop.simps [code]

definition memcpy_to_from_queue ::
  "'a VIRTIODevice_scheme \<Rightarrow> simif \<Rightarrow> u8 list \<Rightarrow> nat \<Rightarrow> int \<Rightarrow> int \<Rightarrow> int \<Rightarrow> bool \<Rightarrow>
   (int \<times> u8 list \<times> simif) outcome" where
  "memcpy_to_from_queue s sim buf queue_idx desc_idx offset count to_queue =
     (if count = 0 then Some (Inr (0, buf, sim))
      else
        let desc = get_desc s sim queue_idx desc_idx
        in if to_queue then find_write_loop s queue_idx sim buf desc offset count
           else seek_loop s queue_idx False 0 sim buf desc offset count)"

definition memcpy_from_queue ::
  "'a VIRTIODevice_scheme \<Rightarrow> simif \<Rightarrow> u8 list \<Rightarrow> nat \<Rightarrow> int \<Rightarrow> int \<Rightarrow> int \<Rightarrow>
   (int \<times> u8 list \<times> simif) outcome" where
  "memcpy_from_queue s sim buf queue_idx desc_idx offset count =
     memcpy_to_from_queue s sim buf queue_idx desc_idx offset count False"

definition memcpy_to_queue ::
  "'a VIRTIODevice_scheme \<Rightarrow> simif \<Rightarrow> nat \<Rightarrow> int \<Rightarrow> int \<Rightarrow> u8 list \<Rightarrow> int \<Rightarrow>
   (int \<times> u8 list \<times> simif) outcome" where
  "memcpy_to_queue s sim queue_idx desc_idx offset buf count =
     memcpy_to_from_queue s sim buf queue_idx desc_idx offset count True"

text \<open>\<open>virtio_consume_desc\<close>: signal that the descriptor has been consumed.\<close>

definition virtio_consume_desc ::
  "'a VIRTIODevice_scheme \<Rightarrow> simif \<Rightarrow> nat \<Rightarrow> int \<Rightarrow> int \<Rightarrow> 'a VIRTIODevice_scheme \<times> simif" where
  "virtio_consume_desc s sim queue_idx desc_idx desc_len =
     (let qs = queue s queue_idx;
          a = used_addr qs + 2;
          index = (ucast (virtio_read16 sim a) :: u32);
          sim1 = virtio_write16 sim a (ucast (index + 1));
          a' = used_addr qs + 4 + ucast ((index AND (num qs - 1)) * 8);
          sim2 = virtio_write32 sim1 a' (word_of_int desc_idx);
          sim3 = virtio_write32 sim2 (a' + 4) (word_of_int desc_len)
      in (s\<lparr>int_status := int_status s OR 1\<rparr>, set_irq sim3 True))"

text \<open>
  \<open>get_desc_rw_size\<close> returns \<open>-1\<close> (\<open>Rw_malformed\<close>, the out parameters untouched)
  or \<open>0\<close> with \<open>*pread_size\<close> and \<open>*pwrite_size\<close> (\<open>Rw_size\<close>). Its second loop:
\<close>

datatype rw_size = Rw_malformed | Rw_size int int

partial_function (option) rw_write_loop ::
  "'a VIRTIODevice_scheme \<Rightarrow> simif \<Rightarrow> nat \<Rightarrow> VIRTIODesc \<Rightarrow> int \<Rightarrow> int \<Rightarrow> rw_size option" where
  "rw_write_loop s sim queue_idx desc read_size write_size =
     (if d_flags desc AND VRING_DESC_F_WRITE = 0 then Some Rw_malformed
      else
        let write_size' = to_int32 (write_size + uint (d_len desc))
        in if d_flags desc AND VRING_DESC_F_NEXT = 0 then Some (Rw_size read_size write_size')
           else rw_write_loop s sim queue_idx (get_desc s sim queue_idx (uint (d_next desc)))
                  read_size write_size')"

text \<open>Its first loop:\<close>

partial_function (option) rw_read_loop ::
  "'a VIRTIODevice_scheme \<Rightarrow> simif \<Rightarrow> nat \<Rightarrow> VIRTIODesc \<Rightarrow> int \<Rightarrow> rw_size option" where
  "rw_read_loop s sim queue_idx desc read_size =
     (if d_flags desc AND VRING_DESC_F_WRITE \<noteq> 0
      then rw_write_loop s sim queue_idx desc read_size 0
      else
        let read_size' = to_int32 (read_size + uint (d_len desc))
        in if d_flags desc AND VRING_DESC_F_NEXT = 0 then Some (Rw_size read_size' 0)
           else rw_read_loop s sim queue_idx (get_desc s sim queue_idx (uint (d_next desc)))
                  read_size')"

declare rw_write_loop.simps [code] rw_read_loop.simps [code]

definition get_desc_rw_size ::
  "'a VIRTIODevice_scheme \<Rightarrow> simif \<Rightarrow> nat \<Rightarrow> int \<Rightarrow> rw_size option" where
  "get_desc_rw_size s sim queue_idx desc_idx =
     rw_read_loop s sim queue_idx (get_desc s sim queue_idx desc_idx) 0"

text \<open>
  \<open>VIRTIODeviceRecvFunc\<close>: the device callback, given the device, the queue, the head and
  the two sizes; it returns \<open>< 0\<close> to stop the notification.
\<close>

type_synonym 'a recv_func =
  "'a \<Rightarrow> simif \<Rightarrow> nat \<Rightarrow> int \<Rightarrow> int \<Rightarrow> int \<Rightarrow> (int \<times> 'a \<times> simif) outcome"

text \<open>
  What the notify loop did at one value of \<open>last_avail_idx\<close>: it skipped the head
  (\<open>get_desc_rw_size\<close> failed), or it called the callback with the head and the two sizes
  and got the given value back.
\<close>

datatype visit =
    Skipped u16 int
  | Called u16 int int int int

definition advance :: "nat \<Rightarrow> 'a VIRTIODevice_scheme \<Rightarrow> 'a VIRTIODevice_scheme" where
  "advance queue_idx s =
     s\<lparr>queue := (queue s)(queue_idx :=
         (queue s queue_idx)\<lparr>last_avail_idx := last_avail_idx (queue s queue_idx) + 1\<rparr>)\<rparr>"

definition avail_head :: "'a VIRTIODevice_scheme \<Rightarrow> simif \<Rightarrow> nat \<Rightarrow> int" where
  "avail_head s sim queue_idx =
     (let qs = queue s queue_idx
      in uint (virtio_read16 sim (avail_addr qs + 4 +
           ucast ((ucast (last_avail_idx qs) AND (num qs - 1)) * (2 :: u32)))))"

text \<open>
  The \<open>while\<close> loop of \<open>queue_notify\<close>; \<open>visits\<close> lists, oldest first, what the loop did
  at each index so far.
\<close>

partial_function (option) queue_notify_loop ::
  "'a VIRTIODevice_scheme recv_func \<Rightarrow> nat \<Rightarrow> u16 \<Rightarrow> visit list \<Rightarrow> 'a VIRTIODevice_scheme \<Rightarrow>
   simif \<Rightarrow> (visit list \<times> 'a VIRTIODevice_scheme \<times> simif) outcome" where
  "queue_notify_loop recv queue_idx avail_idx visits s sim =
     (if last_avail_idx (queue s queue_idx) \<noteq> avail_idx
      then
        let desc_idx = avail_head s sim queue_idx;
            i = last_avail_idx (queue s queue_idx)
        in case get_desc_rw_size s sim queue_idx desc_idx of
             None \<Rightarrow> None
           | Some Rw_malformed \<Rightarrow>
               queue_notify_loop recv queue_idx avail_idx (visits @ [Skipped i desc_idx])
                 (advance queue_idx s) sim
           | Some (Rw_size read_size write_size) \<Rightarrow>
               (case recv s sim queue_idx desc_idx read_size write_size of
                  None \<Rightarrow> None
                | Some (Inl e) \<Rightarrow> Some (Inl e)
                | Some (Inr (ret, s', sim')) \<Rightarrow>
                    let visits' = visits @ [Called i desc_idx read_size write_size ret]
                    in if ret < 0 then Some (Inr (visits', s', sim'))
                       else queue_notify_loop recv queue_idx avail_idx visits'
                              (advance queue_idx s') sim')
      else Some (Inr (visits, s, sim)))"

declare queue_notify_loop.simps [code]

definition queue_notify ::
  "'a VIRTIODevice_scheme recv_func \<Rightarrow> 'a VIRTIODevice_scheme \<Rightarrow> simif \<Rightarrow> nat \<Rightarrow>
   (visit list \<times> 'a VIRTIODevice_scheme \<times> simif) outcome" where
  "queue_notify recv s sim queue_idx =
     (let qs = queue s queue_idx
      in if manual_recv qs then Some (Inr ([], s, sim))
         else queue_notify_loop recv queue_idx (virtio_read16 sim (avail_addr qs + 2)) [] s sim)"

section \<open>The MMIO register file\<close>

definition reset_queue :: "QueueState \<Rightarrow> QueueState" where
  "reset_queue qs =
     qs\<lparr>ready := 0, num := MAX_QUEUE_NUM, desc_addr := 0, avail_addr := 0, used_addr := 0,
        last_avail_idx := 0\<rparr>"

definition virtio_reset :: "'a VIRTIODevice_scheme \<Rightarrow> 'a VIRTIODevice_scheme" where
  "virtio_reset s =
     s\<lparr>status := 0, queue_sel := 0, device_features_sel := 0, int_status := 0,
       queue := fold (\<lambda>i q. q(i := reset_queue (q i))) [0..<MAX_QUEUE] (queue s)\<rparr>"

definition zero_queue :: QueueState where
  "zero_queue =
     \<lparr>ready = 0, num = 0, last_avail_idx = 0, desc_addr = 0, avail_addr = 0, used_addr = 0,
      manual_recv = False\<rparr>"

text \<open>\<open>virtio_init\<close>: \<open>memset\<close> to zero, the identity fields, then \<open>virtio_reset\<close>.\<close>

definition virtio_init :: "'a VIRTIODevice_scheme \<Rightarrow> u32 \<Rightarrow> int \<Rightarrow> 'a VIRTIODevice_scheme" where
  "virtio_init s dev_id cfg_size =
     virtio_reset
       (s\<lparr>int_status := 0, status := 0, device_features_sel := 0, queue_sel := 0,
          queue := (\<lambda>i. zero_queue), device_id := dev_id, vendor_id := 0xffff,
          device_features := 0, config_space_size := word_of_int cfg_size,
          config_space := replicate MAX_CONFIG_SPACE_SIZE 0\<rparr>)"

text \<open>
  The bytes \<open>config_space[off..off+n)\<close>; an index past the 256-byte array is
  \<open>Out_of_bounds\<close>.
\<close>

definition config_get :: "'a VIRTIODevice_scheme \<Rightarrow> nat \<Rightarrow> nat \<Rightarrow> fault + u8 list" where
  "config_get s off n =
     (if off + n \<le> length (config_space s) then Inr (take n (drop off (config_space s)))
      else Inl Out_of_bounds)"

definition config_put ::
  "'a VIRTIODevice_scheme \<Rightarrow> nat \<Rightarrow> u8 list \<Rightarrow> fault + 'a VIRTIODevice_scheme" where
  "config_put s off bs =
     (if off + length bs \<le> length (config_space s)
      then Inr (s\<lparr>config_space := blit (config_space s) off bs\<rparr>)
      else Inl Out_of_bounds)"

definition virtio_config_read :: "'a VIRTIODevice_scheme \<Rightarrow> u32 \<Rightarrow> int \<Rightarrow> fault + u32" where
  "virtio_config_read s offset size_log2 =
     (if size_log2 = 0 then
        (if offset < config_space_size s
         then map_sum id le_word (config_get s (unat offset) 1) else Inr 0)
      else if size_log2 = 1 then
        (if offset < config_space_size s - 1
         then map_sum id le_word (config_get s (unat offset) 2) else Inr 0)
      else if size_log2 = 2 then
        (if offset < config_space_size s - 3
         then map_sum id le_word (config_get s (unat offset) 4) else Inr 0)
      else Inl Abort_called)"

text \<open>\<open>config_write\<close>, called after the config space is written when it is not null.\<close>

type_synonym 'a config_write_func = "('a \<Rightarrow> simif \<Rightarrow> ('a \<times> simif) outcome) option"

definition call_config_write ::
  "'a config_write_func \<Rightarrow> (fault + 'a) \<Rightarrow> simif \<Rightarrow> ('a \<times> simif) outcome" where
  "call_config_write cfgw r sim =
     (case r of
        Inl e \<Rightarrow> Some (Inl e)
      | Inr s' \<Rightarrow> (case cfgw of None \<Rightarrow> Some (Inr (s', sim)) | Some f \<Rightarrow> f s' sim))"

definition virtio_config_write ::
  "'a VIRTIODevice_scheme config_write_func \<Rightarrow> 'a VIRTIODevice_scheme \<Rightarrow> simif \<Rightarrow> u32 \<Rightarrow>
   u32 \<Rightarrow> int \<Rightarrow> ('a VIRTIODevice_scheme \<times> simif) outcome" where
  "virtio_config_write cfgw s sim offset val size_log2 =
     (if size_log2 = 0 then
        (if offset < config_space_size s
         then call_config_write cfgw (config_put s (unat offset) (le_bytes 1 val)) sim
         else Some (Inr (s, sim)))
      else if size_log2 = 1 then
        (if offset < config_space_size s - 1
         then call_config_write cfgw (config_put s (unat offset) (le_bytes 2 val)) sim
         else Some (Inr (s, sim)))
      else if size_log2 = 2 then
        (if offset < config_space_size s - 3
         then call_config_write cfgw (config_put s (unat offset) (le_bytes 4 val)) sim
         else Some (Inr (s, sim)))
      else Some (Inr (s, sim)))"

definition VIRTIO_MMIO_CONFIG :: u32 where
  "VIRTIO_MMIO_CONFIG = 0x100"

text \<open>The queue \<open>s->queue[s->queue_sel]\<close>.\<close>

definition sel_queue :: "'a VIRTIODevice_scheme \<Rightarrow> QueueState" where
  "sel_queue s = queue s (unat (queue_sel s))"

definition virtio_mmio_read :: "'a VIRTIODevice_scheme \<Rightarrow> u32 \<Rightarrow> int \<Rightarrow> fault + u32" where
  "virtio_mmio_read s offset size_log2 =
     (if offset \<ge> VIRTIO_MMIO_CONFIG
      then virtio_config_read s (offset - VIRTIO_MMIO_CONFIG) size_log2
      else if size_log2 = 2 then
        Inr (if offset = 0x000 then 0x74726976
             else if offset = 0x004 then 2
             else if offset = 0x008 then device_id s
             else if offset = 0x00c then vendor_id s
             else if offset = 0x010 then
               (if device_features_sel s = 0 then device_features s
                else if device_features_sel s = 1 then 1
                else 0)
             else if offset = 0x014 then device_features_sel s
             else if offset = 0x030 then queue_sel s
             else if offset = 0x034 then MAX_QUEUE_NUM
             else if offset = 0x038 then num (sel_queue s)
             else if offset = 0x080 then ucast (desc_addr (sel_queue s))
             else if offset = 0x090 then ucast (avail_addr (sel_queue s))
             else if offset = 0x0a0 then ucast (used_addr (sel_queue s))
             else if offset = 0x084 then ucast (drop_bit 32 (desc_addr (sel_queue s)))
             else if offset = 0x094 then ucast (drop_bit 32 (avail_addr (sel_queue s)))
             else if offset = 0x0a4 then ucast (drop_bit 32 (used_addr (sel_queue s)))
             else if offset = 0x044 then ready (sel_queue s)
             else if offset = 0x060 then int_status s
             else if offset = 0x070 then status s
             else if offset = 0x0fc then 0
             else 0)
      else Inr 0)"

definition set_low32 :: "virtio_phys_addr_t \<Rightarrow> u32 \<Rightarrow> virtio_phys_addr_t" where
  "set_low32 paddr val = (paddr AND NOT 0xffffffff) OR ucast val"

definition set_high32 :: "virtio_phys_addr_t \<Rightarrow> u32 \<Rightarrow> virtio_phys_addr_t" where
  "set_high32 paddr val = (paddr AND 0xffffffff) OR push_bit 32 (ucast val)"

definition upd_sel_queue ::
  "(QueueState \<Rightarrow> QueueState) \<Rightarrow> 'a VIRTIODevice_scheme \<Rightarrow> 'a VIRTIODevice_scheme" where
  "upd_sel_queue f s = s\<lparr>queue := (queue s)(unat (queue_sel s) := f (sel_queue s))\<rparr>"

text \<open>
  \<open>virtio_mmio_write\<close>; \<open>recv\<close> and \<open>cfgw\<close> are the device's \<open>device_recv\<close> and
  \<open>config_write\<close>.
\<close>

definition virtio_mmio_write ::
  "'a VIRTIODevice_scheme recv_func \<Rightarrow> 'a VIRTIODevice_scheme config_write_func \<Rightarrow>
   'a VIRTIODevice_scheme \<Rightarrow> simif \<Rightarrow> u32 \<Rightarrow> u32 \<Rightarrow> int \<Rightarrow>
   ('a VIRTIODevice_scheme \<times> simif) outcome" where
  "virtio_mmio_write recv cfgw s sim offset val size_log2 =
     (if offset \<ge> VIRTIO_MMIO_CONFIG
      then virtio_config_write cfgw s sim (offset - VIRTIO_MMIO_CONFIG) val size_log2
      else if size_log2 = 2 then
        (if offset = 0x014 then Some (Inr (s\<lparr>device_features_sel := val\<rparr>, sim))
         else if offset = 0x030 then
           Some (Inr (if val < word_of_nat MAX_QUEUE then s\<lparr>queue_sel := val\<rparr> else s, sim))
         else if offset = 0x038 then
           Some (Inr (if val AND (val - 1) = 0 \<and> val > 0
                      then upd_sel_queue (\<lambda>qs. qs\<lparr>num := val\<rparr>) s else s, sim))
         else if offset = 0x080 then
           Some (Inr (upd_sel_queue (\<lambda>qs. qs\<lparr>desc_addr := set_low32 (desc_addr qs) val\<rparr>) s, sim))
         else if offset = 0x090 then
           Some (Inr (upd_sel_queue (\<lambda>qs. qs\<lparr>avail_addr := set_low32 (avail_addr qs) val\<rparr>) s, sim))
         else if offset = 0x0a0 then
           Some (Inr (upd_sel_queue (\<lambda>qs. qs\<lparr>used_addr := set_low32 (used_addr qs) val\<rparr>) s, sim))
         else if offset = 0x084 then
           Some (Inr (upd_sel_queue (\<lambda>qs. qs\<lparr>desc_addr := set_high32 (desc_addr qs) val\<rparr>) s, sim))
         else if offset = 0x094 then
           Some (Inr (upd_sel_queue (\<lambda>qs. qs\<lparr>avail_addr := set_high32 (avail_addr qs) val\<rparr>) s, sim))
         else if offset = 0x0a4 then
           Some (Inr (upd_sel_queue (\<lambda>qs. qs\<lparr>used_addr := set_high32 (used_addr qs) val\<rparr>) s, sim))
         else if offset = 0x070 then
           (if val = 0 then Some (Inr (virtio_reset (s\<lparr>status := val\<rparr>), set_irq sim False))
            else Some (Inr (s\<lparr>status := val\<rparr>, sim)))
         else if offset = 0x044 then
           Some (Inr (upd_sel_queue (\<lambda>qs. qs\<lparr>ready := val AND 1\<rparr>) s, sim))
         else if offset = 0x050 then
           (if val < word_of_nat MAX_QUEUE
            then (case queue_notify recv s sim (unat val) of
                    None \<Rightarrow> None
                  | Some (Inl e) \<Rightarrow> Some (Inl e)
                  | Some (Inr (visits, s', sim')) \<Rightarrow> Some (Inr (s', sim')))
            else Some (Inr (s, sim)))
         else if offset = 0x064 then
           (let s' = s\<lparr>int_status := int_status s AND NOT val\<rparr>
            in Some (Inr (s', if int_status s' = 0 then set_irq sim False else sim)))
         else Some (Inr (s, sim)))
      else Some (Inr (s, sim)))"

definition virtio_config_change_notify ::
  "'a VIRTIODevice_scheme \<Rightarrow> simif \<Rightarrow> 'a VIRTIODevice_scheme \<times> simif" where
  "virtio_config_change_notify s sim = (s\<lparr>int_status := int_status s OR 2\<rparr>, set_irq sim True)"

section \<open>The block device\<close>

text \<open>
  \<open>BlockDevice\<close>: the backend behind its three function pointers, with its \<open>opaque\<close>
  state. \<open>read_async\<close> gives the returned value, the bytes it stored at the start of
  the buffer and the new state; \<open>write_async\<close> takes the buffer and the sector count.
\<close>

record 'b BlockDevice =
  opaque :: 'b
  get_sector_count :: "'b \<Rightarrow> int"
  read_async :: "'b \<Rightarrow> u64 \<Rightarrow> int \<Rightarrow> int \<times> u8 list \<times> 'b"
  write_async :: "'b \<Rightarrow> u64 \<Rightarrow> u8 list \<Rightarrow> int \<Rightarrow> int \<times> 'b"

record BlockRequest =
  req_type :: u32
  req_buf :: "u8 list"
  req_write_size :: int
  req_queue_idx :: nat
  req_desc_idx :: int

record 'b VIRTIOBlockDevice = VIRTIODevice +
  bs :: "'b BlockDevice"
  req_in_progress :: bool
  req :: BlockRequest

record BlockRequestHeader =
  h_type :: u32
  h_ioprio :: u32
  h_sector_num :: u64

definition VIRTIO_BLK_T_IN :: u32 where
  "VIRTIO_BLK_T_IN = 0"

definition VIRTIO_BLK_T_OUT :: u32 where
  "VIRTIO_BLK_T_OUT = 1"

definition VIRTIO_BLK_S_OK :: u8 where
  "VIRTIO_BLK_S_OK = 0"

definition VIRTIO_BLK_S_IOERR :: u8 where
  "VIRTIO_BLK_S_IOERR = 1"

definition SECTOR_SIZE :: int where
  "SECTOR_SIZE = 512"

definition header_of :: "u8 list \<Rightarrow> BlockRequestHeader" where
  "header_of hb =
     \<lparr>h_type = le_word (take 4 hb), h_ioprio = le_word (take 4 (drop 4 hb)),
      h_sector_num = le_word (take 8 (drop 8 hb))\<rparr>"

text \<open>The status byte for the value the backend returned.\<close>

definition status_of :: "int \<Rightarrow> u8" where
  "status_of ret = (if ret < 0 then VIRTIO_BLK_S_IOERR else VIRTIO_BLK_S_OK)"

text \<open>
  \<open>virtio_block_req_end\<close>. For a read, the status byte goes to \<open>buf[write_size - 1]\<close> of
  the \<open>malloc(write_size)\<close> buffer; outside it the store is \<open>Out_of_bounds\<close>.
\<close>

definition virtio_block_req_end ::
  "('b, 'a) VIRTIOBlockDevice_scheme \<Rightarrow> simif \<Rightarrow> int \<Rightarrow>
   (('b, 'a) VIRTIOBlockDevice_scheme \<times> simif) outcome" where
  "virtio_block_req_end s sim ret =
     (let q = req_queue_idx (req s);
          d = req_desc_idx (req s);
          st = status_of ret
      in if req_type (req s) = VIRTIO_BLK_T_IN then
           (let write_size = req_write_size (req s);
                buf = req_buf (req s)
            in if write_size - 1 < 0 \<or> int (length buf) \<le> write_size - 1
               then Some (Inl Out_of_bounds)
               else
                 (case memcpy_to_queue s sim q d 0 (buf[nat (write_size - 1) := st]) write_size of
                    None \<Rightarrow> None
                  | Some (Inl e) \<Rightarrow> Some (Inl e)
                  | Some (Inr (r, b, sim')) \<Rightarrow>
                      Some (Inr (virtio_consume_desc s sim' q d write_size))))
         else if req_type (req s) = VIRTIO_BLK_T_OUT then
           (case memcpy_to_queue s sim q d 0 [st] 1 of
              None \<Rightarrow> None
            | Some (Inl e) \<Rightarrow> Some (Inl e)
            | Some (Inr (r, b, sim')) \<Rightarrow> Some (Inr (virtio_consume_desc s sim' q d 1)))
         else Some (Inl Abort_called))"

definition finish_request ::
  "('b, 'a) VIRTIOBlockDevice_scheme \<Rightarrow> simif \<Rightarrow> int \<Rightarrow>
   (int \<times> ('b, 'a) VIRTIOBlockDevice_scheme \<times> simif) outcome" where
  "finish_request s sim ret =
     (if ret > 0 then Some (Inr (0, s\<lparr>req_in_progress := True\<rparr>, sim))
      else (case virtio_block_req_end s sim ret of
              None \<Rightarrow> None
            | Some (Inl e) \<Rightarrow> Some (Inl e)
            | Some (Inr (s', sim')) \<Rightarrow> Some (Inr (0, s', sim'))))"

text \<open>
  \<open>virtio_block_recv_request\<close>. \<open>finish_request\<close> is the tail both request types
  share: \<open>ret > 0\<close> marks the request in progress, otherwise \<open>virtio_block_req_end\<close>
  runs; then \<open>return 0\<close>. The bytes of a \<open>malloc\<close> buffer are indeterminate until
  they are stored to; here they are 0.
\<close>

definition virtio_block_recv_request ::
  "('b, 'a) VIRTIOBlockDevice_scheme recv_func" where
  "virtio_block_recv_request s sim queue_idx desc_idx read_size write_size =
     (if req_in_progress s then Some (Inr (- 1, s, sim))
      else
        (case memcpy_from_queue s sim (replicate 16 0) queue_idx desc_idx 0 16 of
           None \<Rightarrow> None
         | Some (Inl e) \<Rightarrow> Some (Inl e)
         | Some (Inr (r, hb, sim1)) \<Rightarrow>
             if r < 0 then Some (Inr (0, s, sim1))
             else
               let h = header_of hb;
                   s1 = s\<lparr>req := (req s)\<lparr>req_type := h_type h, req_queue_idx := queue_idx,
                                         req_desc_idx := desc_idx\<rparr>\<rparr>
               in if h_type h = VIRTIO_BLK_T_IN then
                    (let buf = replicate (nat write_size) 0;
                         n = c_div (write_size - 1) SECTOR_SIZE;
                         (ret, data, b') = read_async (bs s1) (opaque (bs s1)) (h_sector_num h) n;
                         s2 = s1\<lparr>req := (req s1)\<lparr>req_buf :=
                                                   blit buf 0 (take (nat (n * SECTOR_SIZE)) data),
                                                 req_write_size := write_size\<rparr>,
                                 bs := (bs s1)\<lparr>opaque := b'\<rparr>\<rparr>
                     in finish_request s2 sim1 ret)
                  else if h_type h = VIRTIO_BLK_T_OUT then
                    (if write_size < 1 then Some (Inl Assert_failed)
                     else
                       let len = to_int32 (read_size - 16)
                       in case memcpy_from_queue s1 sim1 (replicate (nat len) 0) queue_idx
                                 desc_idx 16 len of
                            None \<Rightarrow> None
                          | Some (Inl e) \<Rightarrow> Some (Inl e)
                          | Some (Inr (r2, buf, sim2)) \<Rightarrow>
                              let (ret, b') = write_async (bs s1) (opaque (bs s1))
                                                (h_sector_num h) buf (c_div len SECTOR_SIZE)
                              in finish_request (s1\<lparr>bs := (bs s1)\<lparr>opaque := b'\<rparr>\<rparr>) sim2 ret)
                  else Some (Inr (0, s1, sim1))))"




text \<open>\<open>virtio_block_req_cb\<close>: the completion of a request in progress.\<close>

definition virtio_block_req_cb ::
  "('b, 'a) VIRTIOBlockDevice_scheme \<Rightarrow> simif \<Rightarrow> int \<Rightarrow>
   (('b, 'a) VIRTIOBlockDevice_scheme \<times> simif) outcome" where
  "virtio_block_req_cb s sim ret =
     (case virtio_block_req_end s sim ret of
        None \<Rightarrow> None
      | Some (Inl e) \<Rightarrow> Some (Inl e)
      | Some (Inr (s', sim')) \<Rightarrow>
          (case queue_notify virtio_block_recv_request (s'\<lparr>req_in_progress := False\<rparr>) sim'
                  (req_queue_idx (req s')) of
             None \<Rightarrow> None
           | Some (Inl e) \<Rightarrow> Some (Inl e)
           | Some (Inr (visits, s'', sim'')) \<Rightarrow> Some (Inr (s'', sim''))))"

text \<open>
  \<open>virtio_block_init\<close>: a zeroed \<open>VIRTIOBlockDevice\<close>, \<open>virtio_init\<close> with device id 2
  and 8 bytes of config space, then the sector count in the config space.
\<close>

definition virtio_block_init :: "'b BlockDevice \<Rightarrow> 'b VIRTIOBlockDevice" where
  "virtio_block_init b =
     (let s = virtio_init
                \<lparr>int_status = 0, status = 0, device_features_sel = 0, queue_sel = 0,
                 queue = (\<lambda>i. zero_queue), device_id = 0, vendor_id = 0, device_features = 0,
                 config_space_size = 0, config_space = replicate MAX_CONFIG_SPACE_SIZE 0,
                 bs = b, req_in_progress = False,
                 req = \<lparr>req_type = 0, req_buf = [], req_write_size = 0, req_queue_idx = 0,
                        req_desc_idx = 0\<rparr>\<rparr> 2 8;
          nb_sectors = (word_of_int (get_sector_count b (opaque b)) :: u64)
      in s\<lparr>config_space :=
             blit (blit (config_space s) 0 (le_bytes 4 nb_sectors)) 4
               (le_bytes 4 (drop_bit 32 nb_sectors))\<rparr>)"

section \<open>The bus interface of the block device\<close>

text \<open>
  \<open>virtioblk_t::load\<close>: \<open>Inr None\<close> is \<open>return false\<close>, \<open>Inr (Some bytes)\<close> is
  \<open>return true\<close> with the \<open>len\<close> bytes stored to \<open>bytes\<close>
  (\<open>read_little_endian_reg\<close> of the simulator stores the low \<open>len\<close> bytes of the value,
  least significant first).
\<close>

definition virtioblk_load ::
  "('b, 'a) VIRTIOBlockDevice_scheme \<Rightarrow> u64 \<Rightarrow> nat \<Rightarrow> fault + u8 list option" where
  "virtioblk_load blk_dev addr len =
     (if len > 8 then Inr None
      else if len = 1 then Inr (Some (le_bytes len (0 :: u8)))
      else if len = 2 then Inr (Some (le_bytes len (0 :: u16)))
      else if len = 4 then
        (case virtio_mmio_read blk_dev (ucast addr) 2 of
           Inl e \<Rightarrow> Inl e
         | Inr val \<Rightarrow> Inr (Some (le_bytes len val)))
      else if len = 8 then
        (case virtio_mmio_read blk_dev (ucast addr) 2 of
           Inl e \<Rightarrow> Inl e
         | Inr low \<Rightarrow>
             (case virtio_mmio_read blk_dev (ucast (addr + 4)) 2 of
                Inl e \<Rightarrow> Inl e
              | Inr high \<Rightarrow>
                  Inr (Some (le_bytes len ((ucast low :: u64) OR push_bit 32 (ucast high))))))
      else Inr None)"

text \<open>
  \<open>virtioblk_t::store\<close>: the returned \<open>bool\<close> with the device and the memory after it.
\<close>

definition virtioblk_store ::
  "('b, 'a) VIRTIOBlockDevice_scheme \<Rightarrow> simif \<Rightarrow> u64 \<Rightarrow> nat \<Rightarrow> u8 list \<Rightarrow>
   (bool \<times> ('b, 'a) VIRTIOBlockDevice_scheme \<times> simif) outcome" where
  "virtioblk_store blk_dev sim addr len bytes =
     (if len > 8 then Some (Inr (False, blk_dev, sim))
      else if len = 1 then Some (Inr (True, blk_dev, sim))
      else if len = 2 then Some (Inr (True, blk_dev, sim))
      else if len = 4 then
        (case virtio_mmio_write virtio_block_recv_request None blk_dev sim (ucast addr)
                (le_word (take len bytes)) 2 of
           None \<Rightarrow> None
         | Some (Inl e) \<Rightarrow> Some (Inl e)
         | Some (Inr (s', sim')) \<Rightarrow> Some (Inr (True, s', sim')))
      else if len = 8 then
        (let val = (le_word (take len bytes) :: u64)
         in case virtio_mmio_write virtio_block_recv_request None blk_dev sim (ucast addr)
                   (ucast (val AND 0xffffffff)) 2 of
              None \<Rightarrow> None
            | Some (Inl e) \<Rightarrow> Some (Inl e)
            | Some (Inr (s', sim')) \<Rightarrow>
                (case virtio_mmio_write virtio_block_recv_request None s' sim' (ucast (addr + 4))
                        (ucast (drop_bit 32 val AND 0xffffffff)) 2 of
                   None \<Rightarrow> None
                 | Some (Inl e) \<Rightarrow> Some (Inl e)
                 | Some (Inr (s'', sim'')) \<Rightarrow> Some (Inr (True, s'', sim''))))
      else Some (Inr (False, blk_dev, sim)))"

section \<open>The UART\<close>

text \<open>
  Modelled from the spec: the registers of \<open>sifive_uart_t\<close>, their offsets, and
  \<open>read_rxfifo\<close> and \<open>read_ip\<close> (sifive_uart.h is not part of the sources): RXFIFO pops
  one byte and gives \<open>0x80000000\<close> when the FIFO is empty; IP.tx (bit 0) is always 1 and
  IP.rx (bit 1) is 1 whenever the FIFO is not empty.
\<close>

record sifive_uart =
  txctrl :: u32
  rxctrl :: u32
  ie :: u32
  div_reg :: u32
  rx_fifo :: "u8 list"

definition read_rxfifo :: "sifive_uart \<Rightarrow> u32 \<times> sifive_uart" where
  "read_rxfifo u =
     (case rx_fifo u of
        [] \<Rightarrow> (0x80000000, u)
      | b # rest \<Rightarrow> (ucast b, u\<lparr>rx_fifo := rest\<rparr>))"

definition read_ip :: "sifive_uart \<Rightarrow> u32" where
  "read_ip u = (if rx_fifo u = [] then 1 else 3)"

text \<open>
  \<open>sifive_uart_t::load\<close>: \<open>Inr (None, u)\<close> is \<open>return false\<close>; an offset that is not
  a register ends in \<open>abort()\<close>.
\<close>

definition sifive_uart_load ::
  "sifive_uart \<Rightarrow> u64 \<Rightarrow> nat \<Rightarrow> fault + (u8 list option \<times> sifive_uart)" where
  "sifive_uart_load u addr len =
     (if addr \<ge> 0x1000 \<or> len > 4 then Inr (None, u)
      else if addr = 0x00 then Inr (Some (le_bytes len (0 :: u32)), u)
      else if addr = 0x04 then
        (let (r, u') = read_rxfifo u in Inr (Some (le_bytes len r), u'))
      else if addr = 0x08 then Inr (Some (le_bytes len (txctrl u)), u)
      else if addr = 0x0c then Inr (Some (le_bytes len (rxctrl u)), u)
      else if addr = 0x10 then Inr (Some (le_bytes len (ie u)), u)
      else if addr = 0x14 then Inr (Some (le_bytes len (read_ip u)), u)
      else if addr = 0x18 then Inr (Some (le_bytes len (div_reg u)), u)
      else Inl Abort_called)"

section \<open>The walk of the available ring\<close>

text \<open>
  The index a visit was made at, and whether the callback stopped the loop there.
  \<open>walk_ok start avail visits final\<close>: the visits are at \<open>start\<close>, \<open>start + 1\<close>, ...
  modulo \<open>2^16\<close>, one per index and never past \<open>avail\<close>; only the last one may
  have stopped the loop; then \<open>final\<close>, the \<open>last_avail_idx\<close> left behind, is the index
  of that visit, and otherwise it is \<open>avail\<close>, every index up to it visited.
\<close>

fun visit_idx :: "visit \<Rightarrow> u16" where
  "visit_idx (Skipped i d) = i"
| "visit_idx (Called i d r w ret) = i"

fun stopped :: "visit \<Rightarrow> bool" where
  "stopped (Skipped i d) = False"
| "stopped (Called i d r w ret) = (ret < 0)"

definition walk_ok :: "u16 \<Rightarrow> u16 \<Rightarrow> visit list \<Rightarrow> u16 \<Rightarrow> bool" where
  "walk_ok start avail visits final \<longleftrightarrow>
     map visit_idx visits = map (\<lambda>i. start + of_nat i) [0..<length visits] \<and>
     length visits \<le> unat (avail - start) \<and>
     (\<forall>v \<in> set (butlast visits). \<not> stopped v) \<and>
     (if visits \<noteq> [] \<and> stopped (last visits) then final = visit_idx (last visits)
      else final = avail \<and> length visits = unat (avail - start))"

text \<open>
  What a notify of queue \<open>q\<close> is to do, from the device \<open>s\<close> and the memory \<open>sim\<close>
  to the device \<open>s'\<close> and the memory \<open>sim'\<close>, with the visits it makes. At
  \<open>avail\<close> it is over. Before that, a head whose chain \<open>get_desc_rw_size\<close> refuses is
  skipped: the callback is not applied and only \<open>last_avail_idx\<close> moves. Any other head
  is handed to the callback, once, with the two sizes of its chain; the walk goes on
  from what the callback left, one index further, when the callback returned \<open>\<ge> 0\<close>,
  and ends with what the callback left when it returned \<open>< 0\<close>.
\<close>

inductive notify_walk ::
  "'a VIRTIODevice_scheme recv_func \<Rightarrow> nat \<Rightarrow> u16 \<Rightarrow> 'a VIRTIODevice_scheme \<Rightarrow> simif \<Rightarrow>
   visit list \<Rightarrow> 'a VIRTIODevice_scheme \<Rightarrow> simif \<Rightarrow> bool"
  for recv :: "'a VIRTIODevice_scheme recv_func" and q :: nat and avail :: u16 where
  over: "last_avail_idx (queue s q) = avail \<Longrightarrow> notify_walk recv q avail s sim [] s sim"
| skip: "last_avail_idx (queue s q) \<noteq> avail \<Longrightarrow>
         get_desc_rw_size s sim q (avail_head s sim q) = Some Rw_malformed \<Longrightarrow>
         notify_walk recv q avail (advance q s) sim visits s' sim' \<Longrightarrow>
         notify_walk recv q avail s sim
           (Skipped (last_avail_idx (queue s q)) (avail_head s sim q) # visits) s' sim'"
| call: "last_avail_idx (queue s q) \<noteq> avail \<Longrightarrow>
         get_desc_rw_size s sim q (avail_head s sim q) = Some (Rw_size read_size write_size) \<Longrightarrow>
         recv s sim q (avail_head s sim q) read_size write_size = Some (Inr (ret, t, mem)) \<Longrightarrow>
         0 \<le> ret \<Longrightarrow>
         notify_walk recv q avail (advance q t) mem visits s' sim' \<Longrightarrow>
         notify_walk recv q avail s sim
           (Called (last_avail_idx (queue s q)) (avail_head s sim q) read_size write_size ret
              # visits) s' sim'"
| push_back: "last_avail_idx (queue s q) \<noteq> avail \<Longrightarrow>
         get_desc_rw_size s sim q (avail_head s sim q) = Some (Rw_size read_size write_size) \<Longrightarrow>
         recv s sim q (avail_head s sim q) read_size write_size = Some (Inr (ret, t, mem)) \<Longrightarrow>
         ret < 0 \<Longrightarrow>
         notify_walk recv q avail s sim
           [Called (last_avail_idx (queue s q)) (avail_head s sim q) read_size write_size ret]
           t mem"

section \<open>The sizes of the queues\<close>

text \<open>A power of two that fits 32 bits.\<close>

definition is_pow2 :: "u32 \<Rightarrow> bool" where
  "is_pow2 w \<longleftrightarrow> (\<exists>k \<in> {0..<32}. w = 2 ^ k)"

text \<open>What a handler may not touch: the sizes of the queues and the selected queue.\<close>

definition same_nums :: "'a VIRTIODevice_scheme \<Rightarrow> 'a VIRTIODevice_scheme \<Rightarrow> bool" where
  "same_nums s s' \<longleftrightarrow> (\<forall>i. num (queue s' i) = num (queue s i)) \<and> queue_sel s' = queue_sel s"

text \<open>
  The states of the block device: after \<open>virtio_block_init\<close>, after a store of the
  bus to a state reached (with the guest memory as the guest has left it), and after the
  completion of a request.
\<close>

inductive reachable_blk :: "'b BlockDevice \<Rightarrow> 'b VIRTIOBlockDevice \<Rightarrow> bool" for b where
  init: "reachable_blk b (virtio_block_init b)"
| store: "reachable_blk b s \<Longrightarrow>
          virtioblk_store s sim addr len bytes = Some (Inr (ok, s', sim')) \<Longrightarrow>
          reachable_blk b s'"
| completion: "reachable_blk b s \<Longrightarrow>
          virtio_block_req_cb s sim ret = Some (Inr (s', sim')) \<Longrightarrow>
          reachable_blk b s'"

text \<open>The invariant of the register file.\<close>

definition nums_ok :: "'a VIRTIODevice_scheme \<Rightarrow> bool" where
  "nums_ok s \<longleftrightarrow> (\<forall>i < MAX_QUEUE. is_pow2 (num (queue s i))) \<and> unat (queue_sel s) < MAX_QUEUE"

section \<open>A device and a memory to run on\<close>

text \<open>
  A backend with no state that behaves as a read-only image of 2048 zero sectors: a
  read stores \<open>n\<close> sectors of zeros and returns 0, a write returns \<open>-1\<close>.
\<close>

definition ro_backend :: "unit BlockDevice" where
  "ro_backend =
     \<lparr>opaque = (), get_sector_count = (\<lambda>b. 2048),
      read_async = (\<lambda>b sector n. (0, replicate (nat (n * 512)) 0, b)),
      write_async = (\<lambda>b sector buf n. (- 1, b))\<rparr>"

definition blank_sim :: simif where
  "blank_sim = \<lparr>dram = (\<lambda>a. 0), irq_level = False, events = []\<rparr>"

text \<open>A device in use: driver running, interrupt pending, queue 0 ready and advanced.\<close>

definition busy_blk :: "unit VIRTIOBlockDevice" where
  "busy_blk =
     (virtio_block_init ro_backend)
       \<lparr>status := 15, int_status := 1,
        queue := (queue (virtio_block_init ro_backend))
          (0 := (queue (virtio_block_init ro_backend) 0)
                  \<lparr>ready := 1, num := 8, last_avail_idx := 7, desc_addr := 0x1000,
                   avail_addr := 0x2000, used_addr := 0x3000\<rparr>)\<rparr>"

text \<open>The state of a queue after a reset.\<close>

definition after_reset :: "QueueState \<Rightarrow> bool" where
  "after_reset qs \<longleftrightarrow>
     num qs = MAX_QUEUE_NUM \<and> num qs = 16 \<and> num qs \<noteq> 0 \<and> ready qs = 0 \<and>
     last_avail_idx qs = 0 \<and> desc_addr qs = 0 \<and> avail_addr qs = 0 \<and> used_addr qs = 0"

text \<open>
  A guest memory with a descriptor table at \<open>0x1000\<close> and an available ring at
  \<open>0x2000\<close> holding the heads 2 and 1. Descriptor 0 is a read-only 16-byte header of
  type 1 (OUT) at \<open>0x4000\<close> and nothing else; descriptor 1 a read-only header of type 8
  at \<open>0x4100\<close>; descriptor 2 is device-writable and links to the read-only
  descriptor 3; descriptor 4 is the header at \<open>0x4000\<close> linked to descriptor 5, one
  device-writable byte at \<open>0x5000\<close>; descriptor 6 is a read-only header of type 0
  (IN) at \<open>0x4200\<close> linked to descriptor 5. \<open>ring_blk\<close> is the block device with queue 0
  set up on these tables, eight entries long.
\<close>

definition ring_dram :: "u64 \<Rightarrow> u8" where
  "ring_dram =
     (\<lambda>a. 0)
       (0x1001 := 0x40, 0x1008 := 0x10,
        0x1011 := 0x41, 0x1018 := 0x10,
        0x1021 := 0x42, 0x1028 := 0x10, 0x102c := 3, 0x102e := 3,
        0x1031 := 0x43, 0x1038 := 0x10,
        0x1041 := 0x40, 0x1048 := 0x10, 0x104c := 1, 0x104e := 5,
        0x1051 := 0x50, 0x1058 := 1, 0x105c := 2,
        0x1061 := 0x42, 0x1068 := 0x10, 0x106c := 1, 0x106e := 5,
        0x2002 := 2, 0x2004 := 2, 0x2006 := 1,
        0x4000 := 1, 0x4100 := 8)"

definition ring_sim :: simif where
  "ring_sim = \<lparr>dram = ring_dram, irq_level = False, events = []\<rparr>"

definition ring_blk :: "unit VIRTIOBlockDevice" where
  "ring_blk =
     (virtio_block_init ro_backend)
       \<lparr>status := 15,
        queue := (queue (virtio_block_init ro_backend))
          (0 := (queue (virtio_block_init ro_backend) 0)
                  \<lparr>ready := 1, num := 8, desc_addr := 0x1000,
                   avail_addr := 0x2000, used_addr := 0x3000\<rparr>)\<rparr>"


text \<open>The device after initialisation and a write of 4 to QUEUE_NUM; a UART at rest.\<close>

definition num4_blk :: "unit VIRTIOBlockDevice" where
  "num4_blk =
     (virtio_block_init ro_backend)
       \<lparr>queue := (queue (virtio_block_init ro_backend))
          (0 := (queue (virtio_block_init ro_backend) 0)\<lparr>num := 4\<rparr>)\<rparr>"

definition idle_uart :: sifive_uart where
  "idle_uart = \<lparr>txctrl = 0, rxctrl = 0, ie = 0, div_reg = 0, rx_fifo = []\<rparr>"

text \<open>
  The example device after a notify of queue 0: the request at head 1 noted, and the
  states the notify loop goes through.
\<close>

definition ring_noted :: "unit VIRTIOBlockDevice" where
  "ring_noted =
     (advance 0 ring_blk)\<lparr>req := (req ring_blk)\<lparr>req_type := 8, req_queue_idx := 0,
                                                req_desc_idx := 1\<rparr>\<rparr>"

definition ring_inv :: "unit VIRTIOBlockDevice \<Rightarrow> simif \<Rightarrow> bool" where
  "ring_inv s sim \<longleftrightarrow>
     sim = ring_sim \<and> (s = ring_blk \<or> s = advance 0 ring_blk \<or> s = advance 0 ring_noted)"

text \<open>\<open>b\<close> is stored (possibly more than once) after the first store of \<open>a\<close>.\<close>

definition happens_before :: "event \<Rightarrow> event \<Rightarrow> event list \<Rightarrow> bool" where
  "happens_before a b tr = (b \<in> set (drop 1 (dropWhile (\<lambda>e. e \<noteq> a) tr)))"

section \<open>Bytes, words and memory\<close>

lemma le_word_bytes16: "le_word (le_bytes 2 (v :: u16)) = v"
  unfolding le_word_def le_bytes_def
  apply (simp add: upt_rec)
  apply (rule bit_word_eqI)
  apply (auto simp: bit_simps)
  done

lemma le_word_bytes32: "le_word (le_bytes 4 (v :: u32)) = v"
  unfolding le_word_def le_bytes_def
  apply (simp add: upt_rec)
  apply (rule bit_word_eqI)
  apply (auto simp: bit_simps not_less)
  subgoal for n by (cases "24 \<le> n") simp_all
  done

lemma poke2: "poke m a [b0, b1] = m(a := b0, a + 1 := b1)"
  by (simp add: poke_def upt_rec)

lemma poke4: "poke m a [b0, b1, b2, b3] = m(a := b0, a + 1 := b1, a + 2 := b2, a + 3 := b3)"
  by (simp add: poke_def upt_rec)

lemma le_bytes2: "le_bytes 2 v = [ucast v, ucast (drop_bit 8 v)]"
  by (simp add: le_bytes_def upt_rec)
lemma le_bytes4: "le_bytes 4 v = [ucast v, ucast (drop_bit 8 v), ucast (drop_bit 16 v), ucast (drop_bit 24 v)]"
  by (simp add: le_bytes_def upt_rec)

lemma word_add_ne:
  fixes u :: u64
  shows "unat x \<noteq> unat y \<Longrightarrow> u + x \<noteq> u + y"
  by auto

lemma slot_bound:
  fixes y :: u32
  shows "unat (ucast y :: u64) < 2 ^ 32"
proof -
  have "unat y < 2 ^ 32" using unsigned_less [of y, where 'a = nat] by simp
  moreover have "unat (ucast y :: u64) = unat y"
    by (simp add: unsigned_ucast_eq take_bit_nat_eq_self_iff) (use calculation in simp)
  ultimately show ?thesis by simp
qed

lemma far:
  fixes y :: u32 and u :: u64
  assumes "k < 12" "j < 4"
  shows "u + 4 + ucast y + of_nat k \<noteq> u + of_nat j"
proof -
  have b: "unat (ucast y :: u64) < 2 ^ 32" by (rule slot_bound)
  have "unat (4 + ucast y + of_nat k :: u64) = 4 + unat (ucast y :: u64) + k"
    using b assms by (simp add: unat_word_ariths unat_of_nat)
  moreover have "unat (of_nat j :: u64) = j" using assms by (simp add: unat_of_nat)
  ultimately have "unat (4 + ucast y + of_nat k :: u64) \<noteq> unat (of_nat j :: u64)"
    using assms by simp
  then have "u + (4 + ucast y + of_nat k) \<noteq> u + of_nat j" by (rule word_add_ne)
  then show ?thesis by (simp add: add.assoc)
qed


lemma poke8_other:
  assumes "\<And>i. i < 8 \<Longrightarrow> e + of_nat i \<noteq> a"
  shows "poke (poke m e [h0, h1, h2, h3]) (e + 4) [l0, l1, l2, l3] a = m a"
  using assms [of 0] assms [of 1] assms [of 2] assms [of 3]
    assms [of 4] assms [of 5] assms [of 6] assms [of 7]
  by (simp add: poke4 add.assoc)

lemma poke8_low:
  "le_word (map (poke (poke m e (le_bytes 4 (h :: u32))) (e + 4) (le_bytes 4 (l :: u32)))
      [e, e + 1, e + 2, e + 3]) = h"
proof -
  have "map (poke (poke m e (le_bytes 4 h)) (e + 4) (le_bytes 4 l)) [e, e + 1, e + 2, e + 3]
        = le_bytes 4 h"
    by (simp add: le_bytes4 poke4 add.assoc)
  then show ?thesis by (simp only: le_word_bytes32)
qed

lemma poke8_high:
  "le_word (map (poke (poke m e (le_bytes 4 (h :: u32))) (e + 4) (le_bytes 4 (l :: u32)))
      [e + 4, e + 4 + 1, e + 4 + 2, e + 4 + 3]) = l"
proof -
  have "map (poke (poke m e (le_bytes 4 h)) (e + 4) (le_bytes 4 l))
          [e + 4, e + 4 + 1, e + 4 + 2, e + 4 + 3] = le_bytes 4 l"
    by (simp add: le_bytes4 poke4 add.assoc)
  then show ?thesis by (simp only: le_word_bytes32)
qed

lemma consume_dram:
  "dram (snd (virtio_consume_desc s sim q head len)) =
     (let u = used_addr (queue s q);
          index = (ucast (virtio_read16 sim (u + 2)) :: u32);
          e = u + 4 + ucast ((index AND (num (queue s q) - 1)) * 8)
      in poke (poke (poke (dram sim) (u + 2) (le_bytes 2 (ucast (index + 1) :: u16))) e
                 (le_bytes 4 (word_of_int head :: u32))) (e + 4) (le_bytes 4 (word_of_int len :: u32)))"
  by (simp add: virtio_consume_desc_def Let_def virtio_write16_def virtio_write32_def
      store_u16_def store_u32_def set_irq_def)

lemma consume_events:
  "events (snd (virtio_consume_desc s sim q head len)) =
     (let u = used_addr (queue s q);
          index = (ucast (virtio_read16 sim (u + 2)) :: u32);
          e = u + 4 + ucast ((index AND (num (queue s q) - 1)) * 8)
      in events sim @ [Store16 (u + 2) (ucast (index + 1)), Store32 e (word_of_int head),
                        Store32 (e + 4) (word_of_int len), Set_irq True])"
  by (simp add: virtio_consume_desc_def Let_def virtio_write16_def virtio_write32_def
      store_u16_def store_u32_def set_irq_def)

lemma unat_ucast_16_32: "unat (ucast (w :: u16) :: u32) = unat w"
proof -
  have "unat w < 2 ^ 16" using unsigned_less [of w, where 'a = nat] by simp
  then have "unat w < 2 ^ 32" by simp
  then show ?thesis by (simp add: unsigned_ucast_eq take_bit_nat_eq_self_iff)
qed

lemma idx_succ: "(ucast ((ucast (w :: u16) :: u32) + 1) :: u16) = w + 1"
proof -
  have b: "unat w < 2 ^ 16" using unsigned_less [of w, where 'a = nat] by simp
  have "unat (ucast w + 1 :: u32) = unat w + 1"
    using b by (simp add: unat_word_ariths unat_ucast_16_32)
  then have "unat (ucast (ucast w + 1 :: u32) :: u16) = (unat w + 1) mod 2 ^ 16"
    by (simp add: unsigned_ucast_eq take_bit_eq_mod)
  also have "\<dots> = unat (w + 1)" by (simp add: unat_word_ariths)
  finally show ?thesis by (simp add: word_unat_eq_iff)
qed

lemma slot_mod:
  fixes w :: u16 and n :: u32
  assumes "n = 2 ^ k" "k < 32"
  shows "(ucast (((ucast w :: u32) AND (n - 1)) * 8) :: u64) = of_nat (unat w mod unat n) * 8"
proof -
  have npos: "0 < (2 :: u32) ^ k" using assms(2) by (simp add: word_gt_0 )
  have "(ucast w :: u32) AND (n - 1) = ucast w mod n"
    using assms npos by (simp add: word_mod_2p_is_mask flip: mask_eq_decr_exp)
  then have m: "unat ((ucast w :: u32) AND (n - 1)) = unat w mod unat n"
    by (simp add: unat_mod unat_ucast_16_32)
  have b: "unat w < 2 ^ 16" using unsigned_less [of w, where 'a = nat] by simp
  have "unat w mod unat n \<le> unat w" by simp
  with b have lt: "unat w mod unat n < 2 ^ 16" by linarith
  have "unat (((ucast w :: u32) AND (n - 1)) * 8) = (unat w mod unat n) * 8"
    using lt by (simp add: unat_word_ariths m)
  then have "(ucast (((ucast w :: u32) AND (n - 1)) * 8) :: u64) = of_nat ((unat w mod unat n) * 8)"
    by (metis of_nat_unat)
  then show ?thesis by simp
qed

section \<open>Reset\<close>

lemma fold_upd_upt:
  "fold (\<lambda>i q. q(i := f (q i))) [0..<n] q j = (if j < n then f (q j) else q j)"
  by (induction n) auto

lemma queue_virtio_reset:
  "queue (virtio_reset s) i = (if i < MAX_QUEUE then reset_queue (queue s i) else queue s i)"
  by (simp add: virtio_reset_def fold_upd_upt)

lemma virtio_reset_fields:
  "status (virtio_reset s) = 0" "int_status (virtio_reset s) = 0"
  "queue_sel (virtio_reset s) = 0" "device_features_sel (virtio_reset s) = 0"
  by (simp_all add: virtio_reset_def)

lemma queue_block_init:
  "queue (virtio_block_init b) i = (if i < MAX_QUEUE then reset_queue zero_queue else zero_queue)"
  by (simp add: virtio_block_init_def virtio_init_def Let_def queue_virtio_reset)

section \<open>Reading guest memory\<close>

lemma from_ram_loop_eq:
  "from_ram_loop sim a count l buf =
     buf @ map (\<lambda>i. dram sim (a + word_of_int (l + int i))) [0..<nat count]"
proof (induction sim a count l buf rule: from_ram_loop.induct)
  case (1 sim a count l buf)
  show ?case
  proof (cases "count > 0")
    case True
    then have n: "nat count = Suc (nat (count - 1))" by simp
    have "[0..<nat count] = 0 # map Suc [0..<nat (count - 1)]"
      unfolding n by (simp only: upt_conv_Cons zero_less_Suc map_Suc_upt)
    then show ?thesis
      using True 1
      by (subst from_ram_loop.simps) (simp add: load_u8_def o_def ac_simps)
  next
    case False
    then show ?thesis by (subst from_ram_loop.simps) simp
  qed
qed

lemma memcpy_from_ram_intrapage_eq:
  "memcpy_from_ram_intrapage sim a count = map (\<lambda>i. dram sim (a + of_nat i)) [0..<nat count]"
  by (simp add: memcpy_from_ram_intrapage_def from_ram_loop_eq)

lemma virtio_memcpy_from_ram_eq:
  "virtio_memcpy_from_ram sim a count = map (\<lambda>i. dram sim (a + of_nat i)) [0..<nat count]"
proof (induction sim a count rule: virtio_memcpy_from_ram.induct)
  case (1 sim a count)
  show ?case
  proof (cases "count > 0")
    case True
    define l where "l = min count (page_rest a)"
    have lpos: "0 < l" and lle: "l \<le> count"
      using True page_rest_pos [of a] by (simp_all add: l_def)
    have split: "[0..<nat count] = [0..<nat l] @ map (\<lambda>i. nat l + i) [0..<nat (count - l)]"
    proof -
      have n: "nat count = nat l + nat (count - l)" using lpos lle by simp
      have "[0..<nat l + nat (count - l)] = [0..<nat l] @ [nat l..<nat l + nat (count - l)]"
        by (rule upt_add_eq_append) simp
      moreover have "map (\<lambda>i. i + nat l) [0..<nat (count - l)] =
                     [nat l..<nat (count - l) + nat l]"
        by (rule map_add_upt)
      ultimately show ?thesis
        unfolding n by (simp only: add.commute [of _ "nat l"])
    qed
    have wl: "(word_of_int l :: u64) = of_nat (nat l)" using lpos by simp
    have "virtio_memcpy_from_ram sim a count =
            memcpy_from_ram_intrapage sim a l @ virtio_memcpy_from_ram sim (a + word_of_int l) (count - l)"
      using True by (subst virtio_memcpy_from_ram.simps) (simp add: l_def Let_def)
    also have "\<dots> = map (\<lambda>i. dram sim (a + of_nat i)) [0..<nat l] @
                     map (\<lambda>i. dram sim (a + word_of_int l + of_nat i)) [0..<nat (count - l)]"
      using 1 [OF True l_def]
      by (simp add: memcpy_from_ram_intrapage_eq)
    also have "\<dots> = map (\<lambda>i. dram sim (a + of_nat i)) [0..<nat count]"
      unfolding split by (simp add: o_def wl add.assoc)
    finally show ?thesis .
  next
    case False
    then show ?thesis by (subst virtio_memcpy_from_ram.simps) simp
  qed
qed

lemma upt_16: "[0..<16] = [0,1,2,3,4,5,6,7,8,9,10,11,12,13,14,15::nat]"
  by (simp add: upt_rec)

lemma get_desc_bytes:
  "get_desc s sim q d =
     (let a = desc_addr (queue s q) + word_of_int d * 16; m = dram sim
      in \<lparr>d_addr = le_word [m a, m (a + 1), m (a + 2), m (a + 3), m (a + 4), m (a + 5),
                            m (a + 6), m (a + 7)],
          d_len = le_word [m (a + 8), m (a + 9), m (a + 10), m (a + 11)],
          d_flags = le_word [m (a + 12), m (a + 13)],
          d_next = le_word [m (a + 14), m (a + 15)]\<rparr>)"
  by (simp add: get_desc_def virtio_memcpy_from_ram_eq upt_16 Let_def)




text \<open>The only fault of a copy is an access outside the buffer.\<close>

lemma copy_loop_fault:
  assumes a: "copy_loop s q tq f sim buf pos desc off cnt = Some y"
  shows "\<forall>e. y = Inl e \<longrightarrow> e = Out_of_bounds"
  by (induct rule: copy_loop.raw_induct [OF _ a])
    (auto simp: Let_def split: if_splits)

lemma seek_loop_fault:
  assumes a: "seek_loop s q tq f sim buf desc off cnt = Some y"
  shows "\<forall>e. y = Inl e \<longrightarrow> e = Out_of_bounds"
  by (induct rule: seek_loop.raw_induct [OF _ a])
    (auto simp: Let_def split: if_splits dest: copy_loop_fault)

lemma find_write_loop_fault:
  assumes a: "find_write_loop s q sim buf desc off cnt = Some y"
  shows "\<forall>e. y = Inl e \<longrightarrow> e = Out_of_bounds"
  by (induct rule: find_write_loop.raw_induct [OF _ a])
    (auto simp: Let_def split: if_splits dest: seek_loop_fault)

lemma memcpy_to_from_queue_fault:
  "memcpy_to_from_queue s sim buf q d off cnt tq = Some (Inl e) \<Longrightarrow> e = Out_of_bounds"
  by (auto simp: memcpy_to_from_queue_def Let_def split: if_splits
      dest: seek_loop_fault find_write_loop_fault)

section \<open>Evaluation on the example memory\<close>

lemma ring_queue0:
  "queue ring_blk 0 = \<lparr>ready = 1, num = 8, last_avail_idx = 0, desc_addr = 0x1000,
      avail_addr = 0x2000, used_addr = 0x3000, manual_recv = False\<rparr>"
  by (simp add: ring_blk_def queue_block_init MAX_QUEUE_def reset_queue_def zero_queue_def MAX_QUEUE_NUM_def)

lemma ring_da: "desc_addr (queue ring_blk 0) = 0x1000"
  by (simp add: ring_queue0)

lemma ring_not_busy: "\<not> req_in_progress ring_blk"
  by (simp add: ring_blk_def virtio_block_init_def virtio_init_def virtio_reset_def Let_def)

text \<open>The descriptors of the example memory, for any device whose table is at \<open>0x1000\<close>.\<close>

lemma ring_desc0:
  "desc_addr (queue s 0) = 0x1000 \<Longrightarrow>
   get_desc s ring_sim 0 0 = \<lparr>d_addr = 0x4000, d_len = 16, d_flags = 0, d_next = 0\<rparr>"
  by (simp add: get_desc_bytes ring_sim_def ring_dram_def le_word_def Let_def)

lemma ring_desc1:
  "desc_addr (queue s 0) = 0x1000 \<Longrightarrow>
   get_desc s ring_sim 0 1 = \<lparr>d_addr = 0x4100, d_len = 16, d_flags = 0, d_next = 0\<rparr>"
  by (simp add: get_desc_bytes ring_sim_def ring_dram_def le_word_def Let_def)

lemma ring_desc2:
  "desc_addr (queue s 0) = 0x1000 \<Longrightarrow>
   get_desc s ring_sim 0 2 = \<lparr>d_addr = 0x4200, d_len = 16, d_flags = 3, d_next = 3\<rparr>"
  by (simp add: get_desc_bytes ring_sim_def ring_dram_def le_word_def Let_def)

lemma ring_desc3:
  "desc_addr (queue s 0) = 0x1000 \<Longrightarrow>
   get_desc s ring_sim 0 3 = \<lparr>d_addr = 0x4300, d_len = 16, d_flags = 0, d_next = 0\<rparr>"
  by (simp add: get_desc_bytes ring_sim_def ring_dram_def le_word_def Let_def)




lemma to_int32_small [simp]: "to_int32 16 = 16" "to_int32 0 = 0" "to_int32 1 = 1"
  by (simp_all add: to_int32_def)

text \<open>The headers read from the chains at the heads 0, 1 and 5.\<close>

lemma ring_header0:
  assumes "desc_addr (queue s 0) = 0x1000"
  shows "memcpy_from_queue s ring_sim (replicate 16 0) 0 0 0 16 =
     Some (Inr (0, [1, 0, 0, 0, 0, 0, 0, 0, 0, 0, 0, 0, 0, 0, 0, 0], ring_sim))"
  apply (simp add: memcpy_from_queue_def memcpy_to_from_queue_def ring_desc0 [OF assms] Let_def)
  apply (subst seek_loop.simps)
  apply (simp add: VRING_DESC_F_WRITE_def)
  apply (subst copy_loop.simps)
  apply (simp add: Let_def virtio_memcpy_from_ram_eq upt_16 blit_def)
  apply (simp add: ring_sim_def ring_dram_def)
  done

lemma ring_header1:
  assumes "desc_addr (queue s 0) = 0x1000"
  shows "memcpy_from_queue s ring_sim (replicate 16 0) 0 1 0 16 =
     Some (Inr (0, [8, 0, 0, 0, 0, 0, 0, 0, 0, 0, 0, 0, 0, 0, 0, 0], ring_sim))"
  apply (simp add: memcpy_from_queue_def memcpy_to_from_queue_def ring_desc1 [OF assms] Let_def)
  apply (subst seek_loop.simps)
  apply (simp add: VRING_DESC_F_WRITE_def)
  apply (subst copy_loop.simps)
  apply (simp add: Let_def virtio_memcpy_from_ram_eq upt_16 blit_def)
  apply (simp add: ring_sim_def ring_dram_def)
  done













text \<open>The sizes of the chains at the heads 1 and 2.\<close>

lemma ring_rw_size1:
  assumes "desc_addr (queue s 0) = 0x1000"
  shows "get_desc_rw_size s ring_sim 0 1 = Some (Rw_size 16 0)"
  apply (simp add: get_desc_rw_size_def ring_desc1 [OF assms])
  apply (subst rw_read_loop.simps)
  apply (simp add: VRING_DESC_F_WRITE_def VRING_DESC_F_NEXT_def)
  done

lemma ring_rw_size2:
  assumes "desc_addr (queue s 0) = 0x1000"
  shows "get_desc_rw_size s ring_sim 0 2 = Some Rw_malformed"
  apply (simp add: get_desc_rw_size_def ring_desc2 [OF assms])
  apply (subst rw_read_loop.simps)
  apply (simp add: VRING_DESC_F_WRITE_def VRING_DESC_F_NEXT_def)
  apply (subst rw_write_loop.simps)
  apply (simp add: VRING_DESC_F_WRITE_def VRING_DESC_F_NEXT_def ring_desc3 [OF assms])
  apply (subst rw_write_loop.simps)
  apply (simp add: VRING_DESC_F_WRITE_def VRING_DESC_F_NEXT_def)
  done

section \<open>Powers of two\<close>

lemma nat_pow2_trick:
  fixes w :: nat
  shows "0 < w \<Longrightarrow> w AND (w - 1) = 0 \<Longrightarrow> \<exists>k. w = 2 ^ k"
proof (induction w rule: less_induct)
  case (less w)
  show ?case
  proof (cases "even w")
    case True
    then obtain v where v: "w = 2 * v" by (auto elim: evenE)
    with less.prems have vpos: "0 < v" by simp
    have "w - 1 = 2 * (v - 1) + 1" using v vpos by simp
    then have "w AND (w - 1) = 2 * (v AND (v - 1))"
      using v by (subst and_rec) simp
    with less.prems have "v AND (v - 1) = 0" by simp
    moreover have "v < w" using v vpos by simp
    ultimately obtain k where "v = 2 ^ k" using less.IH vpos by blast
    then have "w = 2 ^ Suc k" using v by simp
    then show ?thesis by blast
  next
    case False
    then obtain v where v: "w = 2 * v + 1" by (auto elim: oddE)
    then have "w AND (w - 1) = 2 * v"
      by (subst and_rec) simp
    with less.prems have "v = 0" by simp
    then have "w = 2 ^ 0" using v by simp
    then show ?thesis by blast
  qed
qed

lemma pow2_and_pred:
  fixes k :: nat
  assumes "k < 32"
  shows "(2 :: u32) ^ k AND (2 ^ k - 1) = 0"
  by (rule bit_word_eqI) (auto simp: bit_simps simp flip: mask_eq_decr_exp)

lemma pow2_check:
  fixes val :: u32
  shows "val AND (val - 1) = 0 \<and> 0 < val \<longleftrightarrow> is_pow2 val"
proof
  assume a: "val AND (val - 1) = 0 \<and> 0 < val"
  then have nz: "val \<noteq> 0" by auto
  then have pos: "0 < unat val" by (simp add: unat_gt_0)
  have "unat (val AND (val - 1)) = unat val AND (unat val - 1)"
    by (simp add: unsigned_and_eq unat_minus_one [OF nz])
  with a have "unat val AND (unat val - 1) = 0" by simp
  with pos obtain k where k: "unat val = 2 ^ k" using nat_pow2_trick by blast
  have "unat val < 2 ^ 32" using unsigned_less [of val, where 'a = nat] by simp
  with k have "(2 :: nat) ^ k < 2 ^ 32" by simp
  then have "k < 32" using power_less_imp_less_exp [of 2 k 32] by simp
  moreover have "val = 2 ^ k" using k by (metis of_nat_unat of_nat_numeral of_nat_power ucast_id)
  ultimately show "is_pow2 val" by (auto simp: is_pow2_def)
next
  assume "is_pow2 val"
  then obtain k where k: "k < 32" "val = 2 ^ k" by (auto simp: is_pow2_def)
  have "0 < (2 :: u32) ^ k" using k(1) by (simp add: word_gt_0)
  with k pow2_and_pred [OF k(1)] show "val AND (val - 1) = 0 \<and> 0 < val" by simp
qed

section \<open>What the handlers leave alone\<close>

lemma same_nums_refl [simp]: "same_nums s s"
  by (simp add: same_nums_def)

lemma same_nums_trans: "same_nums s t \<Longrightarrow> same_nums t u \<Longrightarrow> same_nums s u"
  by (simp add: same_nums_def)

lemma same_nums_advance [simp]: "same_nums s (advance q s)"
  by (simp add: same_nums_def advance_def)

lemma same_nums_consume: "same_nums s (fst (virtio_consume_desc s sim q d n))"
  by (simp add: same_nums_def virtio_consume_desc_def Let_def)

lemma req_end_same_nums:
  "virtio_block_req_end s sim ret = Some (Inr (s', sim')) \<Longrightarrow> same_nums s s'"
  by (auto simp: virtio_block_req_end_def Let_def same_nums_def virtio_consume_desc_def
      split: if_splits option.splits sum.splits prod.splits)

lemma finish_request_same_nums:
  "finish_request s sim ret = Some (Inr (x, s', sim')) \<Longrightarrow> same_nums s s'"
  by (auto simp: finish_request_def split: if_splits option.splits sum.splits prod.splits
      dest: req_end_same_nums) (simp add: same_nums_def)

lemma recv_same_nums:
  "virtio_block_recv_request s sim q d r w = Some (Inr (x, s', sim')) \<Longrightarrow> same_nums s s'"
  apply (simp add: virtio_block_recv_request_def Let_def
      split: if_splits option.splits sum.splits prod.splits)
     apply (auto dest!: finish_request_same_nums simp: same_nums_def)
  done

lemma notify_loop_same_nums:
  assumes a: "queue_notify_loop recv q a v s sim = Some y"
  shows "(\<forall>s sim q d r w x s' sim'. recv s sim q d r w = Some (Inr (x, s', sim')) \<longrightarrow> same_nums s s')
         \<longrightarrow> (\<forall>v' s' sim'. y = Inr (v', s', sim') \<longrightarrow> same_nums s s')"
proof (induct rule: queue_notify_loop.raw_induct [OF _ a])
  case (1 loop recv q a v s sim y)
  show ?case
  proof (intro impI allI)
    fix v' s' sim'
    assume fr: "\<forall>s sim q d r w x s' sim'. recv s sim q d r w = Some (Inr (x, s', sim')) \<longrightarrow> same_nums s s'"
      and y: "y = Inr (v', s', sim')"
    show "same_nums s s'"
    proof (cases "last_avail_idx (queue s q) = a")
      case True
      with 1(2) y show ?thesis by simp
    next
      case False
      show ?thesis
      proof (cases "get_desc_rw_size s sim q (avail_head s sim q)")
        case None
        with 1(2) False show ?thesis by (simp add: Let_def)
      next
        case (Some rw)
        show ?thesis
        proof (cases rw)
          case Rw_malformed
          with 1(2) False Some y have
            "loop recv q a (v @ [Skipped (last_avail_idx (queue s q)) (avail_head s sim q)])
               (advance q s) sim = Some (Inr (v', s', sim'))"
            by (simp add: Let_def)
          from 1(1) [OF this] fr have "same_nums (advance q s) s'" by blast
          then show ?thesis using same_nums_trans [OF same_nums_advance] by blast
        next
          case (Rw_size r w)
          show ?thesis
          proof (cases "recv s sim q (avail_head s sim q) r w")
            case None
            with 1(2) False Some Rw_size show ?thesis by (simp add: Let_def)
          next
            case (Some o2)
            note rv = this
            show ?thesis
            proof (cases o2)
              case (Inl e)
              with 1(2) False \<open>get_desc_rw_size s sim q (avail_head s sim q) = Some rw\<close> Rw_size rv y
              show ?thesis by (simp add: Let_def)
            next
              case (Inr t)
              obtain x s1 sim1 where t: "t = (x, s1, sim1)" by (cases t)
              from fr rv Inr t have f1: "same_nums s s1" by blast
              show ?thesis
              proof (cases "x < 0")
                case True
                with 1(2) False \<open>get_desc_rw_size s sim q (avail_head s sim q) = Some rw\<close>
                  Rw_size rv Inr t y
                have "s' = s1" by (simp add: Let_def)
                with f1 show ?thesis by simp
              next
                case xf: False
                with 1(2) False \<open>get_desc_rw_size s sim q (avail_head s sim q) = Some rw\<close>
                  Rw_size rv Inr t y
                have "loop recv q a
                        (v @ [Called (last_avail_idx (queue s q)) (avail_head s sim q) r w x])
                        (advance q s1) sim1 = Some (Inr (v', s', sim'))"
                  by (simp add: Let_def)
                from 1(1) [OF this] fr have "same_nums (advance q s1) s'" by blast
                then have "same_nums s1 s'" using same_nums_trans [OF same_nums_advance] by blast
                with f1 show ?thesis by (rule same_nums_trans)
              qed
            qed
          qed
        qed
      qed
    qed
  qed
qed

lemma queue_notify_same_nums:
  assumes "\<And>s sim q d r w x s' sim'. recv s sim q d r w = Some (Inr (x, s', sim')) \<Longrightarrow> same_nums s s'"
    and "queue_notify recv s sim q = Some (Inr (v', s', sim'))"
  shows "same_nums s s'"
proof (cases "manual_recv (queue s q)")
  case True
  with assms(2) show ?thesis by (simp add: queue_notify_def)
next
  case False
  with assms(2) have "queue_notify_loop recv q (virtio_read16 sim (avail_addr (queue s q) + 2)) [] s sim
                        = Some (Inr (v', s', sim'))"
    by (simp add: queue_notify_def Let_def)
  from notify_loop_same_nums [OF this] assms(1) show ?thesis by blast
qed

lemma nums_ok_same: "nums_ok s \<Longrightarrow> same_nums s s' \<Longrightarrow> nums_ok s'"
  by (simp add: nums_ok_def same_nums_def)

lemma is_pow2_16: "is_pow2 16"
  unfolding is_pow2_def by (rule bexI [of _ 4]) simp_all

lemma nums_ok_reset: "nums_ok (virtio_reset s)"
  by (simp add: nums_ok_def queue_virtio_reset virtio_reset_fields reset_queue_def
      MAX_QUEUE_NUM_def is_pow2_16 MAX_QUEUE_def)

lemma nums_ok_config [simp]: "nums_ok (s\<lparr>config_space := c\<rparr>) = nums_ok s"
  by (simp add: nums_ok_def)

lemma nums_ok_block_init: "nums_ok (virtio_block_init b)"
  by (simp add: virtio_block_init_def virtio_init_def Let_def nums_ok_reset)

lemma nums_ok_upd_other:
  "nums_ok s \<Longrightarrow> (\<And>qs. num (f qs) = num qs) \<Longrightarrow> nums_ok (upd_sel_queue f s)"
  by (simp add: nums_ok_def upd_sel_queue_def sel_queue_def)

lemma nums_ok_upd_num:
  "nums_ok s \<Longrightarrow> is_pow2 val \<Longrightarrow> nums_ok (upd_sel_queue (\<lambda>qs. qs\<lparr>num := val\<rparr>) s)"
  by (simp add: nums_ok_def upd_sel_queue_def sel_queue_def)

lemma sel_bound: "(val :: u32) < word_of_nat MAX_QUEUE \<Longrightarrow> unat val < MAX_QUEUE"
  by (simp add: MAX_QUEUE_def word_less_nat_alt)

lemma config_write_none_same:
  "virtio_config_write None s sim off val sz = Some (Inr (s', sim')) \<Longrightarrow> same_nums s s'"
  by (auto simp: virtio_config_write_def call_config_write_def config_put_def same_nums_def
      split: if_splits sum.splits)

lemma mmio_write_nums_ok:
  assumes recv: "\<And>s sim q d r w x s' sim'.
      recv s sim q d r w = Some (Inr (x, s', sim')) \<Longrightarrow> same_nums s s'"
    and ok: "nums_ok s"
    and w: "virtio_mmio_write recv None s sim off val sz = Some (Inr (s', sim'))"
  shows "nums_ok s'"
proof (cases "off \<ge> VIRTIO_MMIO_CONFIG")
  case True
  with w have "virtio_config_write None s sim (off - VIRTIO_MMIO_CONFIG) val sz = Some (Inr (s', sim'))"
    by (simp add: virtio_mmio_write_def)
  then show ?thesis using ok nums_ok_same config_write_none_same by blast
next
  case nc: False
  show ?thesis
  proof (cases "sz = 2")
    case False
    with w nc ok show ?thesis by (simp add: virtio_mmio_write_def)
  next
    case True
    consider (notify) "off = 0x050" | (num) "off = 0x038" | (sel) "off = 0x030"
      | (status) "off = 0x070" | (other) "off \<noteq> 0x050" "off \<noteq> 0x038" "off \<noteq> 0x030" "off \<noteq> 0x070"
      by blast
    then show ?thesis
    proof cases
      case notify
      show ?thesis
      proof (cases "val < word_of_nat MAX_QUEUE")
        case False
        with w nc True notify ok show ?thesis by (simp add: virtio_mmio_write_def)
      next
        case vt: True
        with w nc True notify obtain v where
          "queue_notify recv s sim (unat val) = Some (Inr (v, s', sim'))"
          by (auto simp: virtio_mmio_write_def split: option.splits sum.splits)
        from queue_notify_same_nums [OF recv this] ok show ?thesis by (rule nums_ok_same [rotated])
      qed
    next
      case num
      with w nc True have
        "s' = (if val AND (val - 1) = 0 \<and> val > 0 then upd_sel_queue (\<lambda>qs. qs\<lparr>num := val\<rparr>) s else s)"
        by (simp add: virtio_mmio_write_def)
      then show ?thesis using ok pow2_check [of val] by (auto intro: nums_ok_upd_num)
    next
      case sel
      with w nc True have "s' = (if val < word_of_nat MAX_QUEUE then s\<lparr>queue_sel := val\<rparr> else s)"
        by (simp add: virtio_mmio_write_def)
      then show ?thesis using ok sel_bound [of val] by (auto simp: nums_ok_def)
    next
      case status
      with w nc True have "s' = (if val = 0 then virtio_reset (s\<lparr>status := val\<rparr>) else s\<lparr>status := val\<rparr>)"
        by (auto simp: virtio_mmio_write_def split: if_splits)
      then show ?thesis using ok nums_ok_reset [of "s\<lparr>status := val\<rparr>"] by (auto simp: nums_ok_def)
    next
      case other
      with w nc True ok show ?thesis
        by (auto simp: virtio_mmio_write_def Let_def nums_ok_def upd_sel_queue_def sel_queue_def
            split: if_splits)
    qed
  qed
qed

lemma recv_same_nums_all:
  "\<And>s sim q d r w x s' sim'.
      virtio_block_recv_request s sim q d r w = Some (Inr (x, s', sim')) \<Longrightarrow> same_nums s s'"
  by (rule recv_same_nums)

lemma store_nums_ok:
  assumes "nums_ok s" and "virtioblk_store s sim addr len bytes = Some (Inr (ok, s', sim'))"
  shows "nums_ok s'"
  using assms
  by (auto simp: virtioblk_store_def Let_def split: if_splits option.splits sum.splits prod.splits
      dest: mmio_write_nums_ok [OF recv_same_nums_all, rotated])

lemma req_cb_nums_ok:
  assumes "nums_ok s" and "virtio_block_req_cb s sim ret = Some (Inr (s', sim'))"
  shows "nums_ok s'"
proof -
  from assms(2) obtain s1 sim1 v where
    e: "virtio_block_req_end s sim ret = Some (Inr (s1, sim1))"
    and n: "queue_notify virtio_block_recv_request (s1\<lparr>req_in_progress := False\<rparr>) sim1
              (req_queue_idx (req s1)) = Some (Inr (v, s', sim'))"
    by (auto simp: virtio_block_req_cb_def split: option.splits sum.splits prod.splits)
  from req_end_same_nums [OF e] assms(1) have "nums_ok s1" by (rule nums_ok_same [rotated])
  then have "nums_ok (s1\<lparr>req_in_progress := False\<rparr>)" by (simp add: nums_ok_def)
  with queue_notify_same_nums [OF recv_same_nums_all n] show ?thesis
    by (rule nums_ok_same [rotated])
qed

lemma reachable_nums_ok: "reachable_blk b s \<Longrightarrow> nums_ok s"
  by (induction rule: reachable_blk.induct)
    (auto intro: nums_ok_block_init store_nums_ok req_cb_nums_ok)

lemma queue_sel_block_init: "queue_sel (virtio_block_init b) = 0"
  by (simp add: virtio_block_init_def virtio_init_def Let_def virtio_reset_fields)

lemma store_num4:
  "virtioblk_store (virtio_block_init ro_backend) blank_sim 0x038 4 [4, 0, 0, 0] =
     Some (Inr (True, num4_blk, blank_sim))"
  by (simp add: virtioblk_store_def virtio_mmio_write_def VIRTIO_MMIO_CONFIG_def le_word_def
      upd_sel_queue_def sel_queue_def queue_sel_block_init num4_blk_def)

lemma le_bytes_zero1: "le_bytes (Suc 0) (0 :: 'a::len word) = [0]"
  by (simp add: le_bytes_def)

lemma le_bytes_zero2: "le_bytes 2 (0 :: 'a::len word) = [0, 0]"
  by (simp add: le_bytes_def upt_rec)

section \<open>The notify loop\<close>

lemma walk_step:
  fixes a l :: u16
  assumes "l \<noteq> a"
  shows "unat (a - l) = Suc (unat (a - (l + 1)))"
proof -
  have nz: "a - l \<noteq> 0" using assms by simp
  have "a - (l + 1) = a - l - 1" by simp
  then have "unat (a - (l + 1)) = unat (a - l) - 1" by (simp only: unat_minus_one [OF nz])
  moreover have "0 < unat (a - l)" using nz by (simp add: unat_gt_0)
  ultimately show ?thesis by simp
qed

lemma walk_ok_Nil: "walk_ok a a [] a"
  by (simp add: walk_ok_def)

lemma walk_ok_stop:
  assumes "visit_idx v = start" "stopped v" "start \<noteq> avail"
  shows "walk_ok start avail [v] start"
  using assms walk_step [of start avail] by (simp add: walk_ok_def)

lemma upt_Suc_shift: "[0..<Suc n] = 0 # map Suc [0..<n]"
  by (simp only: upt_conv_Cons zero_less_Suc map_Suc_upt)

lemma walk_ok_Cons:
  assumes v: "visit_idx v = start" "\<not> stopped v" and ne: "start \<noteq> avail"
    and w: "walk_ok (start + 1) avail vs final"
  shows "walk_ok start avail (v # vs) final"
proof -
  note st = walk_step [OF ne]
  from w have m: "map visit_idx vs = map (\<lambda>i. start + 1 + of_nat i) [0..<length vs]"
    and le: "length vs \<le> unat (avail - (start + 1))"
    and bl: "\<forall>x \<in> set (butlast vs). \<not> stopped x"
    and fin: "if vs \<noteq> [] \<and> stopped (last vs) then final = visit_idx (last vs)
              else final = avail \<and> length vs = unat (avail - (start + 1))"
    by (simp_all add: walk_ok_def)
  have 1: "map visit_idx (v # vs) = map (\<lambda>i. start + of_nat i) [0..<length (v # vs)]"
    using v(1) m by (simp add: upt_Suc_shift o_def add.assoc del: upt_Suc)
  have 2: "length (v # vs) \<le> unat (avail - start)" using le st by simp
  have 3: "\<forall>x \<in> set (butlast (v # vs)). \<not> stopped x" using bl v(2) by simp
  have 4: "if v # vs \<noteq> [] \<and> stopped (last (v # vs)) then final = visit_idx (last (v # vs))
           else final = avail \<and> length (v # vs) = unat (avail - start)"
    using fin v(2) st by (cases "vs = []") auto
  from 1 2 3 4 show ?thesis unfolding walk_ok_def by blast
qed

lemma last_advance [simp]:
  "last_avail_idx (queue (advance q s) q) = last_avail_idx (queue s q) + 1"
  by (simp add: advance_def)

lemma notify_loop_walk:
  fixes recv :: "'a VIRTIODevice_scheme recv_func"
  assumes step: "\<And>s sim. I s sim \<Longrightarrow> last_avail_idx (queue s q) \<noteq> avail \<Longrightarrow>
      (get_desc_rw_size s sim q (avail_head s sim q) = Some Rw_malformed \<and> I (advance q s) sim) \<or>
      (\<exists>r w ret s' sim'.
          get_desc_rw_size s sim q (avail_head s sim q) = Some (Rw_size r w) \<and>
          recv s sim q (avail_head s sim q) r w = Some (Inr (ret, s', sim')) \<and>
          last_avail_idx (queue s' q) = last_avail_idx (queue s q) \<and>
          (0 \<le> ret \<longrightarrow> I (advance q s') sim'))"
  shows "I s sim \<Longrightarrow> unat (avail - last_avail_idx (queue s q)) = n \<Longrightarrow>
         \<exists>vs s' sim'. queue_notify_loop recv q avail v0 s sim = Some (Inr (v0 @ vs, s', sim')) \<and>
            walk_ok (last_avail_idx (queue s q)) avail vs (last_avail_idx (queue s' q)) \<and>
            notify_walk recv q avail s sim vs s' sim'"
proof (induction n arbitrary: s sim v0)
  case 0
  then have eq: "last_avail_idx (queue s q) = avail" by (simp add: unat_eq_0)
  then have "queue_notify_loop recv q avail v0 s sim = Some (Inr (v0 @ [], s, sim))"
    by (subst queue_notify_loop.simps) simp
  moreover have "walk_ok (last_avail_idx (queue s q)) avail [] (last_avail_idx (queue s q))"
    using eq walk_ok_Nil by simp
  moreover have "notify_walk recv q avail s sim [] s sim"
    using eq by (rule notify_walk.over)
  ultimately show ?case by blast
next
  case (Suc n)
  define l where "l = last_avail_idx (queue s q)"
  define d where "d = avail_head s sim q"
  from Suc.prems(2) have ne: "l \<noteq> avail" by (auto simp: l_def)
  from walk_step [OF ne] Suc.prems(2) have n: "unat (avail - (l + 1)) = n" by (simp add: l_def)
  from step [OF Suc.prems(1)] ne
  consider (skip) "get_desc_rw_size s sim q d = Some Rw_malformed" "I (advance q s) sim"
    | (call) r w ret s1 sim1 where
        "get_desc_rw_size s sim q d = Some (Rw_size r w)"
        "recv s sim q d r w = Some (Inr (ret, s1, sim1))"
        "last_avail_idx (queue s1 q) = l"
        "0 \<le> ret \<longrightarrow> I (advance q s1) sim1"
    unfolding l_def d_def by blast
  then show ?case
  proof cases
    case skip
    have u: "queue_notify_loop recv q avail v0 s sim =
               queue_notify_loop recv q avail (v0 @ [Skipped l d]) (advance q s) sim"
      using ne skip(1) by (subst queue_notify_loop.simps) (simp add: l_def d_def Let_def)
    have "unat (avail - last_avail_idx (queue (advance q s) q)) = n" using n by (simp add: l_def)
    from Suc.IH [OF skip(2) this, of "v0 @ [Skipped l d]"] obtain vs s' sim' where
      r: "queue_notify_loop recv q avail (v0 @ [Skipped l d]) (advance q s) sim
            = Some (Inr ((v0 @ [Skipped l d]) @ vs, s', sim'))"
      and w: "walk_ok (l + 1) avail vs (last_avail_idx (queue s' q))"
      and k: "notify_walk recv q avail (advance q s) sim vs s' sim'"
      by (auto simp: l_def)
    have "walk_ok l avail (Skipped l d # vs) (last_avail_idx (queue s' q))"
      by (rule walk_ok_Cons [OF _ _ ne w]) simp_all
    moreover have "notify_walk recv q avail s sim (Skipped l d # vs) s' sim'"
      unfolding l_def d_def
      by (rule notify_walk.skip) (use ne skip(1) k in \<open>simp_all add: l_def d_def\<close>)
    ultimately show ?thesis using u r unfolding l_def [symmetric] by auto
  next
    case call
    show ?thesis
    proof (cases "ret < 0")
      case True
      have "queue_notify_loop recv q avail v0 s sim = Some (Inr (v0 @ [Called l d r w ret], s1, sim1))"
        using ne call(1,2) True by (subst queue_notify_loop.simps) (simp add: l_def d_def Let_def)
      moreover have "walk_ok l avail [Called l d r w ret] (last_avail_idx (queue s1 q))"
        unfolding call(3) by (rule walk_ok_stop) (use True ne in simp_all)
      moreover have "notify_walk recv q avail s sim [Called l d r w ret] s1 sim1"
        unfolding l_def d_def
        by (rule notify_walk.push_back) (use ne call(1,2) True in \<open>simp_all add: l_def d_def\<close>)
      ultimately show ?thesis unfolding l_def [symmetric] by blast
    next
      case False
      then have i: "I (advance q s1) sim1" using call(4) by simp
      have u: "queue_notify_loop recv q avail v0 s sim =
                 queue_notify_loop recv q avail (v0 @ [Called l d r w ret]) (advance q s1) sim1"
        using ne call(1,2) False by (subst queue_notify_loop.simps) (simp add: l_def d_def Let_def)
      have "unat (avail - last_avail_idx (queue (advance q s1) q)) = n" using n call(3) by simp
      from Suc.IH [OF i this, of "v0 @ [Called l d r w ret]"] obtain vs s' sim' where
        r: "queue_notify_loop recv q avail (v0 @ [Called l d r w ret]) (advance q s1) sim1
              = Some (Inr ((v0 @ [Called l d r w ret]) @ vs, s', sim'))"
        and w: "walk_ok (l + 1) avail vs (last_avail_idx (queue s' q))"
        and k: "notify_walk recv q avail (advance q s1) sim1 vs s' sim'"
        by (auto simp: call(3))
      have "walk_ok l avail (Called l d r w ret # vs) (last_avail_idx (queue s' q))"
        by (rule walk_ok_Cons [OF _ _ ne w]) (use False in simp_all)
      moreover have "notify_walk recv q avail s sim (Called l d r w ret # vs) s' sim'"
        unfolding l_def d_def
        by (rule notify_walk.call [where t = s1 and mem = sim1])
          (use ne call(1,2) False k in \<open>simp_all add: l_def d_def\<close>)
      ultimately show ?thesis using u r unfolding l_def [symmetric] by auto
    qed
  qed
qed

lemma ring_avail_idx: "virtio_read16 ring_sim (avail_addr (queue ring_blk 0) + 2) = 2"
  by (simp add: ring_queue0 virtio_read16_def load_u16_def ring_sim_def ring_dram_def le_word_def)

lemma ring_head0: "avail_head ring_blk ring_sim 0 = 2"
  by (simp add: avail_head_def ring_queue0 virtio_read16_def load_u16_def ring_sim_def
      ring_dram_def le_word_def Let_def)

lemma ring_queue0_adv:
  "queue (advance 0 ring_blk) 0 = \<lparr>ready = 1, num = 8, last_avail_idx = 1, desc_addr = 0x1000,
      avail_addr = 0x2000, used_addr = 0x3000, manual_recv = False\<rparr>"
  by (simp add: advance_def ring_queue0)

lemma ring_head1: "avail_head (advance 0 ring_blk) ring_sim 0 = 1"
  by (simp add: avail_head_def ring_queue0_adv virtio_read16_def load_u16_def ring_sim_def
      ring_dram_def le_word_def Let_def)

lemma ring_recv1:
  "virtio_block_recv_request (advance 0 ring_blk) ring_sim 0 1 16 0 =
     Some (Inr (0, ring_noted, ring_sim))"
proof -
  have d: "desc_addr (queue (advance 0 ring_blk) 0) = 0x1000" by (simp add: ring_queue0_adv)
  have nb: "\<not> req_in_progress (advance 0 ring_blk)" using ring_not_busy by (simp add: advance_def)
  have r: "req (advance 0 ring_blk) = req ring_blk" by (simp add: advance_def)
  show ?thesis
    by (simp add: virtio_block_recv_request_def nb ring_header1 [OF d] Let_def header_of_def
        le_word_def VIRTIO_BLK_T_IN_def VIRTIO_BLK_T_OUT_def ring_noted_def r)
qed

lemma ring_last_noted: "last_avail_idx (queue ring_noted 0) = 1"
  by (simp add: ring_noted_def ring_queue0_adv)

lemma ring_notify_eval:
  "queue_notify virtio_block_recv_request ring_blk ring_sim 0 =
     Some (Inr ([Skipped 0 2, Called 1 1 16 0 0], advance 0 ring_noted, ring_sim))"
proof -
  have d1: "desc_addr (queue (advance 0 ring_blk) 0) = 0x1000" by (simp add: ring_queue0_adv)
  have l0: "last_avail_idx (queue ring_blk 0) = 0" by (simp add: ring_queue0)
  have l1: "last_avail_idx (queue (advance 0 ring_blk) 0) = 1" by (simp add: ring_queue0_adv)
  have l2: "last_avail_idx (queue (advance 0 ring_noted) 0) = 2" by (simp add: ring_last_noted)
  have m: "\<not> manual_recv (queue ring_blk 0)" by (simp add: ring_queue0)
  have "queue_notify virtio_block_recv_request ring_blk ring_sim 0 =
          queue_notify_loop virtio_block_recv_request 0 2 [] ring_blk ring_sim"
    using m by (simp add: queue_notify_def Let_def ring_avail_idx)
  also have "\<dots> = queue_notify_loop virtio_block_recv_request 0 2 [Skipped 0 2]
                      (advance 0 ring_blk) ring_sim"
    by (subst queue_notify_loop.simps) (simp add: l0 ring_head0 ring_rw_size2 [OF ring_da])
  also have "\<dots> = queue_notify_loop virtio_block_recv_request 0 2
                      [Skipped 0 2, Called 1 1 16 0 0] (advance 0 ring_noted) ring_sim"
    by (subst queue_notify_loop.simps)
      (simp add: l0 ring_head1 ring_rw_size1 [OF d1] ring_recv1)
  also have "\<dots> = Some (Inr ([Skipped 0 2, Called 1 1 16 0 0], advance 0 ring_noted, ring_sim))"
    by (subst queue_notify_loop.simps) (simp add: ring_last_noted)
  finally show ?thesis .
qed

lemma ring_step:
  assumes "ring_inv s sim" and "last_avail_idx (queue s 0) \<noteq> 2"
  shows "(get_desc_rw_size s sim 0 (avail_head s sim 0) = Some Rw_malformed \<and>
            ring_inv (advance 0 s) sim) \<or>
         (\<exists>r w ret s' sim'.
            get_desc_rw_size s sim 0 (avail_head s sim 0) = Some (Rw_size r w) \<and>
            virtio_block_recv_request s sim 0 (avail_head s sim 0) r w = Some (Inr (ret, s', sim')) \<and>
            last_avail_idx (queue s' 0) = last_avail_idx (queue s 0) \<and>
            (0 \<le> ret \<longrightarrow> ring_inv (advance 0 s') sim'))"
proof -
  from assms(1) have sim: "sim = ring_sim" by (simp add: ring_inv_def)
  from assms(1) consider "s = ring_blk" | "s = advance 0 ring_blk" | "s = advance 0 ring_noted"
    by (auto simp: ring_inv_def)
  then show ?thesis
  proof cases
    case 1
    then show ?thesis
      by (simp add: sim ring_head0 ring_rw_size2 [OF ring_da] ring_inv_def)
  next
    case 2
    have d1: "desc_addr (queue (advance 0 ring_blk) 0) = 0x1000" by (simp add: ring_queue0_adv)
    show ?thesis
      unfolding 2 sim
      by (rule disjI2)
        (simp add: ring_head1 ring_rw_size1 [OF d1] ring_recv1 ring_last_noted ring_queue0_adv
          ring_inv_def)
  next
    case 3
    with assms(2) show ?thesis by (simp add: ring_last_noted)
  qed
qed

section \<open>The paths of the request handler\<close>






section \<open>Used-ring publication\<close>

text \<open>
  C4. For a queue whose \<open>num\<close> is a power of two, with \<open>old_idx\<close> the 16-bit counter at
  \<open>used + 2\<close> before the call: after \<open>virtio_consume_desc\<close> the counter is
  \<open>old_idx + 1\<close>, the slot at \<open>used + 4 + (old_idx mod num) * 8\<close> holds the head and
  the length, bit 0 of \<open>int_status\<close> is set and the interrupt line is raised.
\<close>

theorem consume_desc_publishes:
  assumes "num (queue s q) = 2 ^ k" and "k < 32"
  shows "let u = used_addr (queue s q);
             old_idx = virtio_read16 sim (u + 2);
             slot = u + 4 + of_nat (unat old_idx mod unat (num (queue s q))) * 8;
             (s', sim') = virtio_consume_desc s sim q head len
         in virtio_read16 sim' (u + 2) = old_idx + 1 \<and>
            load_u32 sim' slot = word_of_int head \<and>
            load_u32 sim' (slot + 4) = word_of_int len \<and>
            bit (int_status s') 0 \<and> irq_level sim'"
proof -
  define u where "u = used_addr (queue s q)"
  define old_idx where "old_idx = virtio_read16 sim (u + 2)"
  define y where "y = ((ucast old_idx :: u32) AND (num (queue s q) - 1)) * 8"
  define e where "e = u + 4 + (ucast y :: u64)"
  define m1 where "m1 = poke (dram sim) (u + 2) (le_bytes 2 (old_idx + 1))"
  define sim' where "sim' = snd (virtio_consume_desc s sim q head len)"
  define s' where "s' = fst (virtio_consume_desc s sim q head len)"
  have slot: "e = u + 4 + of_nat (unat old_idx mod unat (num (queue s q))) * 8"
    unfolding e_def y_def using slot_mod [OF assms, of old_idx] by simp
  have d: "dram sim' = poke (poke m1 e (le_bytes 4 (word_of_int head :: u32))) (e + 4)
             (le_bytes 4 (word_of_int len :: u32))"
    unfolding sim'_def consume_dram Let_def m1_def e_def y_def old_idx_def u_def
    by (simp add: idx_succ)
  have other: "dram sim' a = m1 a" if "\<And>i. i < 8 \<Longrightarrow> e + of_nat i \<noteq> a" for a
    unfolding d le_bytes4 using that by (rule poke8_other)
  have ne2: "e + of_nat i \<noteq> u + 2" if "i < 8" for i
    using far [of i 2 u y] that by (simp add: e_def)
  have ne3: "e + of_nat i \<noteq> u + 2 + 1" if "i < 8" for i
    using far [of i 3 u y] that by (simp add: e_def add.assoc)
  have r0: "dram sim' (u + 2) = m1 (u + 2)" by (rule other) (rule ne2)
  have r1: "dram sim' (u + 2 + 1) = m1 (u + 2 + 1)" by (rule other) (rule ne3)
  have "virtio_read16 sim' (u + 2) = le_word [m1 (u + 2), m1 (u + 2 + 1)]"
    by (simp only: virtio_read16_def load_u16_def r0 r1)
  also have "\<dots> = le_word (le_bytes 2 (old_idx + 1))"
    by (simp add: m1_def le_bytes2 poke2)
  finally have idx: "virtio_read16 sim' (u + 2) = old_idx + 1"
    by (simp only: le_word_bytes16)
  have lo: "load_u32 sim' e = word_of_int head"
    using poke8_low [of m1 e "word_of_int head" "word_of_int len"]
    by (simp add: load_u32_def d)
  have hi: "load_u32 sim' (e + 4) = word_of_int len"
    using poke8_high [of m1 e "word_of_int head" "word_of_int len"]
    by (simp add: load_u32_def d)
  have st: "bit (int_status s') 0"
    by (simp add: s'_def virtio_consume_desc_def Let_def bit_simps)
  have irq: "irq_level sim'"
    by (simp add: sim'_def virtio_consume_desc_def Let_def set_irq_def)
  show ?thesis
    using idx lo hi st irq
    unfolding Let_def slot [symmetric] u_def [symmetric] old_idx_def [symmetric]
    by (simp add: case_prod_unfold sim'_def s'_def u_def old_idx_def slot [unfolded u_def old_idx_def, symmetric])
qed

theorem consume_desc_publishes_witness:
  "num (queue (virtio_block_init ro_backend) 0) = 2 ^ 4 \<and> (4 :: nat) < 32 \<and>
   (let (s', sim') = virtio_consume_desc (virtio_block_init ro_backend) blank_sim 0 3 513
    in virtio_read16 sim' 2 = 1 \<and> load_u32 sim' 4 = 3 \<and> load_u32 sim' 8 = 513 \<and>
       bit (int_status s') 0 \<and> irq_level sim')"
  using consume_desc_publishes [of "virtio_block_init ro_backend" 0 4 blank_sim 3 513]
  by (simp add: queue_block_init MAX_QUEUE_def reset_queue_def zero_queue_def
      MAX_QUEUE_NUM_def blank_sim_def virtio_read16_def load_u16_def le_word_def Let_def)

text \<open>
  C3, as the code has it. The stores of one publication, in program order: the
  incremented \<open>used.idx\<close> first, then the head and the length of the ring entry, then
  the interrupt.
\<close>

theorem consume_desc_store_order:
  "events (snd (virtio_consume_desc s sim q head len)) =
     (let u = used_addr (queue s q);
          old_idx = virtio_read16 sim (u + 2);
          slot = u + 4 + ucast (((ucast old_idx :: u32) AND (num (queue s q) - 1)) * 8)
      in events sim @
         [Store16 (u + 2) (old_idx + 1), Store32 slot (word_of_int head),
          Store32 (slot + 4) (word_of_int len), Set_irq True])"
  by (simp add: consume_events Let_def idx_succ)

text \<open>
  C3, as the claim has it, fails: publishing head 3 with length 513 on the device after
  initialisation, the entry store does not come before the store of \<open>used.idx\<close>.
\<close>

theorem entry_before_idx_counterexample:
  "\<not> happens_before (Store32 4 3) (Store16 2 1)
       (events (snd (virtio_consume_desc (virtio_block_init ro_backend) blank_sim 0 3 513)))"
  by (simp add: consume_events Let_def queue_block_init MAX_QUEUE_def reset_queue_def
      zero_queue_def MAX_QUEUE_NUM_def blank_sim_def virtio_read16_def load_u16_def le_word_def
      happens_before_def)

text \<open>
  C2, as the code has it. \<open>virtio_consume_desc\<close> does not read the \<open>ready\<close> flag: with
  any value in it the same stores are made and the interrupt is raised, four events in
  all; nothing is dropped.
\<close>

theorem consume_desc_ignores_ready:
  "snd (virtio_consume_desc (s\<lparr>queue := (queue s)(q := (queue s q)\<lparr>ready := r\<rparr>)\<rparr>) sim q head len)
     = snd (virtio_consume_desc s sim q head len) \<and>
   length (events (snd (virtio_consume_desc s sim q head len))) = length (events sim) + 4 \<and>
   irq_level (snd (virtio_consume_desc s sim q head len))"
  by (simp add: virtio_consume_desc_def Let_def virtio_write16_def virtio_write32_def
      store_u16_def store_u32_def set_irq_def)

text \<open>
  C2, as the claim has it, fails: queue 0 of the device after initialisation has
  \<open>ready = 0\<close>, and the publication is written to guest memory all the same.
\<close>

theorem publish_not_ready_counterexample:
  "ready (queue (virtio_block_init ro_backend) 0) = 0 \<and>
   events (snd (virtio_consume_desc (virtio_block_init ro_backend) blank_sim 0 3 513)) =
     [Store16 2 1, Store32 4 3, Store32 8 513, Set_irq True] \<and>
   virtio_read16 (snd (virtio_consume_desc (virtio_block_init ro_backend) blank_sim 0 3 513)) 2 = 1"
  by (simp add: consume_events consume_dram Let_def queue_block_init MAX_QUEUE_def
      reset_queue_def zero_queue_def MAX_QUEUE_NUM_def blank_sim_def virtio_read16_def
      load_u16_def le_word_def le_bytes2 le_bytes4 poke2 poke4)

section \<open>Reset by a write of 0 to STATUS\<close>

text \<open>
  C7. A 32-bit write of 0 to STATUS (offset 0x070), as \<open>virtio_mmio_write\<close> of any
  device or as a 4-byte store of the bus to the block device, returns, and after it
  every queue has \<open>ready = 0\<close> and \<open>last_avail_idx = 0\<close>, \<open>int_status\<close> and \<open>status\<close>
  are 0 and the interrupt line is low.
\<close>

theorem status_write_zero_resets:
  "(\<exists>s' sim'. virtio_mmio_write recv cfgw s sim 0x070 0 2 = Some (Inr (s', sim')) \<and>
      (\<forall>i < MAX_QUEUE. ready (queue s' i) = 0 \<and> last_avail_idx (queue s' i) = 0) \<and>
      int_status s' = 0 \<and> status s' = 0 \<and> \<not> irq_level sim') \<and>
   (\<exists>t' sim'. virtioblk_store t sim 0x070 4 [0, 0, 0, 0] = Some (Inr (True, t', sim')) \<and>
      (\<forall>i < MAX_QUEUE. ready (queue t' i) = 0 \<and> last_avail_idx (queue t' i) = 0) \<and>
      int_status t' = 0 \<and> status t' = 0 \<and> \<not> irq_level sim')"
proof -
  have w: "virtio_mmio_write r c x sim 0x070 0 2 =
             Some (Inr (virtio_reset (x\<lparr>status := 0\<rparr>), set_irq sim False))" for r c x
    by (simp add: virtio_mmio_write_def VIRTIO_MMIO_CONFIG_def)
  have p: "(\<forall>i < MAX_QUEUE. ready (queue (virtio_reset x) i) = 0 \<and>
              last_avail_idx (queue (virtio_reset x) i) = 0) \<and>
           int_status (virtio_reset x) = 0 \<and> status (virtio_reset x) = 0 \<and>
           \<not> irq_level (set_irq sim False)" for x
    by (simp add: queue_virtio_reset virtio_reset_fields reset_queue_def set_irq_def)
  have "virtioblk_store t sim 0x070 4 [0, 0, 0, 0] =
          Some (Inr (True, virtio_reset (t\<lparr>status := 0\<rparr>), set_irq sim False))"
    by (simp add: virtioblk_store_def w le_word_def)
  with w [of recv cfgw s] p [of "s\<lparr>status := 0\<rparr>"] p [of "t\<lparr>status := 0\<rparr>"]
  show ?thesis by simp
qed

theorem status_write_zero_resets_witness:
  "(\<exists>s' sim'. virtio_mmio_write virtio_block_recv_request None busy_blk
       (blank_sim\<lparr>irq_level := True\<rparr>) 0x070 0 2 = Some (Inr (s', sim')) \<and>
     (0 :: nat) < MAX_QUEUE \<and> ready (queue s' 0) = 0 \<and> last_avail_idx (queue s' 0) = 0 \<and>
     int_status s' = 0 \<and> status s' = 0 \<and> \<not> irq_level sim') \<and>
   ready (queue busy_blk 0) = 1 \<and> last_avail_idx (queue busy_blk 0) = 7 \<and>
   int_status busy_blk = 1 \<and> status busy_blk = 15"
proof -
  note t = status_write_zero_resets [of virtio_block_recv_request None busy_blk
      "blank_sim\<lparr>irq_level := True\<rparr>" busy_blk]
  have lt: "(0 :: nat) < MAX_QUEUE" by (simp add: MAX_QUEUE_def)
  from t obtain s' sim' where
    w: "virtio_mmio_write virtio_block_recv_request None busy_blk
          (blank_sim\<lparr>irq_level := True\<rparr>) 0x070 0 2 = Some (Inr (s', sim'))"
    and q: "\<forall>i < MAX_QUEUE. ready (queue s' i) = 0 \<and> last_avail_idx (queue s' i) = 0"
    and r: "int_status s' = 0" "status s' = 0" "\<not> irq_level sim'"
    by blast
  from q lt have q0: "ready (queue s' 0) = 0" "last_avail_idx (queue s' 0) = 0" by blast+
  have b: "ready (queue busy_blk 0) = 1" "last_avail_idx (queue busy_blk 0) = 7"
    "int_status busy_blk = 1" "status busy_blk = 15"
    by (simp_all add: busy_blk_def)
  show ?thesis using w lt q0 r b by blast
qed

text \<open>
  C9. After a reset, at initialisation or by a write of 0 to STATUS, every queue has
  \<open>num = MAX_QUEUE_NUM = 16\<close>, not zero, while \<open>ready\<close>, \<open>last_avail_idx\<close> and the
  three base addresses are zero.
\<close>

theorem reset_leaves_num_16:
  "(\<forall>i < MAX_QUEUE. after_reset (queue (virtio_init s dev_id cfg_size) i)) \<and>
   (\<forall>i < MAX_QUEUE. after_reset (queue (virtio_block_init b) i)) \<and>
   (\<exists>s' sim'. virtio_mmio_write recv cfgw s sim 0x070 0 2 = Some (Inr (s', sim')) \<and>
      (\<forall>i < MAX_QUEUE. after_reset (queue s' i)))"
  by (simp add: virtio_mmio_write_def VIRTIO_MMIO_CONFIG_def queue_virtio_reset
      queue_block_init virtio_init_def reset_queue_def after_reset_def MAX_QUEUE_NUM_def)

theorem reset_leaves_num_16_witness:
  "(0 :: nat) < MAX_QUEUE \<and> num (queue (virtio_block_init ro_backend) 0) = 16 \<and>
   ready (queue (virtio_block_init ro_backend) 0) = 0 \<and>
   num (queue (virtio_init busy_blk 2 8) 0) = 16 \<and>
   (\<exists>s' sim'. virtio_mmio_write virtio_block_recv_request None busy_blk blank_sim 0x070 0 2
        = Some (Inr (s', sim')) \<and>
      num (queue busy_blk 0) = 8 \<and> num (queue s' 0) = 16 \<and> used_addr (queue s' 0) = 0)"
proof -
  note t = reset_leaves_num_16 [of busy_blk 2 8 ro_backend virtio_block_recv_request None
      blank_sim]
  have lt: "(0 :: nat) < MAX_QUEUE" by (simp add: MAX_QUEUE_def)
  from t lt have a: "after_reset (queue (virtio_init busy_blk 2 8) 0)" by blast
  from t lt have b: "after_reset (queue (virtio_block_init ro_backend) 0)" by blast
  from t obtain s' sim' where
    w: "virtio_mmio_write virtio_block_recv_request None busy_blk blank_sim 0x070 0 2
          = Some (Inr (s', sim'))"
    and q: "\<forall>i < MAX_QUEUE. after_reset (queue s' i)" by blast
  from q lt have c: "after_reset (queue s' 0)" by blast
  have d: "num (queue busy_blk 0) = 8" by (simp add: busy_blk_def)
  show ?thesis using lt a b c d w by (auto simp: after_reset_def)
qed

lemma finish_request_fault:
  "finish_request s sim ret = Some (Inl e) \<Longrightarrow> e \<noteq> Assert_failed"
  by (auto simp: finish_request_def virtio_block_req_end_def Let_def memcpy_to_queue_def
      split: if_splits option.splits sum.splits prod.splits
      dest: memcpy_to_from_queue_fault)

section \<open>The block request handler\<close>

text \<open>
  C10. A request not refused as busy whose header was copied and has type 1 (OUT):
  with \<open>write_size < 1\<close>, so with no device-writable descriptor in the chain,
  \<open>assert(write_size >= 1)\<close> fails and the call ends there; with at least one writable
  byte the assertion does not fail.
\<close>

theorem out_without_status_byte_asserts:
  assumes "\<not> req_in_progress s"
    and "memcpy_from_queue s sim (replicate 16 0) q d 0 16 = Some (Inr (r, hb, sim1))"
    and "0 \<le> r"
    and "h_type (header_of hb) = VIRTIO_BLK_T_OUT"
  shows "(write_size < 1 \<longrightarrow>
            virtio_block_recv_request s sim q d read_size write_size = Some (Inl Assert_failed)) \<and>
         (1 \<le> write_size \<longrightarrow>
            virtio_block_recv_request s sim q d read_size write_size \<noteq> Some (Inl Assert_failed))"
proof (intro conjI impI)
  assume "write_size < 1"
  with assms show "virtio_block_recv_request s sim q d read_size write_size = Some (Inl Assert_failed)"
    by (simp add: virtio_block_recv_request_def Let_def VIRTIO_BLK_T_OUT_def VIRTIO_BLK_T_IN_def)
next
  assume ws: "1 \<le> write_size"
  show "virtio_block_recv_request s sim q d read_size write_size \<noteq> Some (Inl Assert_failed)"
  proof
    assume f: "virtio_block_recv_request s sim q d read_size write_size = Some (Inl Assert_failed)"
    with assms ws show False
      by (auto simp: virtio_block_recv_request_def Let_def VIRTIO_BLK_T_OUT_def
          VIRTIO_BLK_T_IN_def memcpy_from_queue_def
          split: option.splits sum.splits prod.splits if_splits
          dest: memcpy_to_from_queue_fault finish_request_fault)
  qed
qed

theorem out_without_status_byte_asserts_witness:
  "\<not> req_in_progress ring_blk \<and>
   memcpy_from_queue ring_blk ring_sim (replicate 16 0) 0 0 0 16 =
     Some (Inr (0, [1, 0, 0, 0, 0, 0, 0, 0, 0, 0, 0, 0, 0, 0, 0, 0], ring_sim)) \<and>
   h_type (header_of [1, 0, 0, 0, 0, 0, 0, 0, 0, 0, 0, 0, 0, 0, 0, 0]) = VIRTIO_BLK_T_OUT \<and>
   virtio_block_recv_request ring_blk ring_sim 0 0 16 0 = Some (Inl Assert_failed)"
proof -
  have a: "\<not> req_in_progress ring_blk"
    by (simp add: ring_blk_def virtio_block_init_def virtio_init_def virtio_reset_def Let_def)
  have t: "h_type (header_of [1, 0, 0, 0, 0, 0, 0, 0, 0, 0, 0, 0, 0, 0, 0, 0]) = VIRTIO_BLK_T_OUT"
    by (simp add: header_of_def le_word_def VIRTIO_BLK_T_OUT_def)
  show ?thesis
    using out_without_status_byte_asserts [OF a ring_header0 [OF ring_da] _ t,
        where read_size = 16 and write_size = 0] a t ring_header0 [OF ring_da]
    by simp
qed






section \<open>The size of a queue\<close>

text \<open>
  C6, as the code has it. In every state the block device reaches, the \<open>num\<close> of every
  queue is a power of two and greater than zero. A 32-bit write to QUEUE_NUM of a value
  that is zero or not a power of two changes nothing; a write of any power of two, also
  one above \<open>MAX_QUEUE_NUM\<close>, stores it in \<open>num\<close> of the selected queue.
\<close>

theorem queue_num_power_of_two:
  "(reachable_blk b s \<longrightarrow> (\<forall>i < MAX_QUEUE. is_pow2 (num (queue s i)) \<and> 0 < num (queue s i))) \<and>
   (\<not> is_pow2 val \<longrightarrow> virtio_mmio_write recv cfgw t sim 0x038 val 2 = Some (Inr (t, sim))) \<and>
   (is_pow2 val \<longrightarrow>
      virtio_mmio_write recv cfgw t sim 0x038 val 2 =
        Some (Inr (upd_sel_queue (\<lambda>qs. qs\<lparr>num := val\<rparr>) t, sim)))"
proof (intro conjI impI allI)
  fix i
  assume "reachable_blk b s" and "i < MAX_QUEUE"
  then have "is_pow2 (num (queue s i))"
    using reachable_nums_ok [of b s] by (simp add: nums_ok_def)
  then show "is_pow2 (num (queue s i))" and "0 < num (queue s i)"
    using pow2_check [of "num (queue s i)"] by simp_all
next
  assume "\<not> is_pow2 val"
  then show "virtio_mmio_write recv cfgw t sim 0x038 val 2 = Some (Inr (t, sim))"
    using pow2_check [of val] by (auto simp: virtio_mmio_write_def VIRTIO_MMIO_CONFIG_def)
next
  assume "is_pow2 val"
  then show "virtio_mmio_write recv cfgw t sim 0x038 val 2 =
        Some (Inr (upd_sel_queue (\<lambda>qs. qs\<lparr>num := val\<rparr>) t, sim))"
    using pow2_check [of val] by (auto simp: virtio_mmio_write_def VIRTIO_MMIO_CONFIG_def)
qed

theorem queue_num_power_of_two_witness:
  "reachable_blk ro_backend num4_blk \<and> (0 :: nat) < MAX_QUEUE \<and>
   is_pow2 (num (queue num4_blk 0)) \<and> num (queue num4_blk 0) = 4 \<and>
   \<not> is_pow2 12 \<and>
   virtio_mmio_write virtio_block_recv_request None num4_blk blank_sim 0x038 12 2 =
     Some (Inr (num4_blk, blank_sim)) \<and>
   \<not> is_pow2 0 \<and>
   virtio_mmio_write virtio_block_recv_request None num4_blk blank_sim 0x038 0 2 =
     Some (Inr (num4_blk, blank_sim)) \<and>
   is_pow2 8 \<and>
   virtio_mmio_write virtio_block_recv_request None num4_blk blank_sim 0x038 8 2 =
     Some (Inr (upd_sel_queue (\<lambda>qs. qs\<lparr>num := 8\<rparr>) num4_blk, blank_sim))"
proof -
  have r: "reachable_blk ro_backend num4_blk"
    using reachable_blk.store [OF reachable_blk.init store_num4] .
  have lt: "(0 :: nat) < MAX_QUEUE" by (simp add: MAX_QUEUE_def)
  have n12: "\<not> is_pow2 12" using pow2_check [of 12] by simp
  have n0: "\<not> is_pow2 0" using pow2_check [of 0] by simp
  have p8: "is_pow2 8" using pow2_check [of 8] by simp
  have a: "is_pow2 (num (queue num4_blk 0))"
    using queue_num_power_of_two [of ro_backend num4_blk 12 virtio_block_recv_request None
        num4_blk blank_sim] r lt by blast
  have b: "virtio_mmio_write virtio_block_recv_request None num4_blk blank_sim 0x038 12 2 =
     Some (Inr (num4_blk, blank_sim))"
    using queue_num_power_of_two [of ro_backend num4_blk 12 virtio_block_recv_request None
        num4_blk blank_sim] n12 by blast
  have c: "virtio_mmio_write virtio_block_recv_request None num4_blk blank_sim 0x038 0 2 =
     Some (Inr (num4_blk, blank_sim))"
    using queue_num_power_of_two [of ro_backend num4_blk 0 virtio_block_recv_request None
        num4_blk blank_sim] n0 by blast
  have d: "virtio_mmio_write virtio_block_recv_request None num4_blk blank_sim 0x038 8 2 =
     Some (Inr (upd_sel_queue (\<lambda>qs. qs\<lparr>num := 8\<rparr>) num4_blk, blank_sim))"
    using queue_num_power_of_two [of ro_backend num4_blk 8 virtio_block_recv_request None
        num4_blk blank_sim] p8 by blast
  have e: "num (queue num4_blk 0) = 4" by (simp add: num4_blk_def)
  show ?thesis using r lt a e n12 b n0 c p8 d by (intro conjI)
qed

text \<open>
  C6, as the claim has it, fails: 32 is above \<open>MAX_QUEUE_NUM = 16\<close>, and a write of 32
  to QUEUE_NUM after initialisation sets \<open>num\<close> of queue 0 to 32.
\<close>

theorem queue_num_above_max_counterexample:
  "MAX_QUEUE_NUM < 32 \<and>
   virtio_mmio_write virtio_block_recv_request None (virtio_block_init ro_backend) blank_sim
       0x038 32 2 =
     Some (Inr ((virtio_block_init ro_backend)
                  \<lparr>queue := (queue (virtio_block_init ro_backend))
                     (0 := (queue (virtio_block_init ro_backend) 0)\<lparr>num := 32\<rparr>)\<rparr>,
                blank_sim))"
  by (simp add: virtio_mmio_write_def VIRTIO_MMIO_CONFIG_def MAX_QUEUE_NUM_def
      upd_sel_queue_def sel_queue_def queue_sel_block_init)

section \<open>Loads from the bus\<close>

text \<open>
  C8, as the code has it. \<open>virtioblk_t::load\<close> returns false exactly when \<open>len\<close> is not
  1, 2, 4 or 8, whatever the address; with \<open>len\<close> 1 or 2 it returns true with zero
  bytes; with \<open>len\<close> 4 it returns true with the bytes of the register that
  \<open>virtio_mmio_read\<close> gives. \<open>sifive_uart_t::load\<close> returns false exactly when the
  address is at or above \<open>0x1000\<close> or \<open>len\<close> is above 4.
\<close>

theorem load_return_value:
  "(virtioblk_load s addr len = Inr None \<longleftrightarrow> len \<noteq> 1 \<and> len \<noteq> 2 \<and> len \<noteq> 4 \<and> len \<noteq> 8) \<and>
   virtioblk_load s addr 1 = Inr (Some [0]) \<and>
   virtioblk_load s addr 2 = Inr (Some [0, 0]) \<and>
   virtioblk_load s addr 4 =
     map_sum id (\<lambda>val. Some (le_bytes 4 val)) (virtio_mmio_read s (ucast addr) 2) \<and>
   ((\<exists>u'. sifive_uart_load u addr len = Inr (None, u')) \<longleftrightarrow> 0x1000 \<le> addr \<or> 4 < len)"
proof (intro conjI)
  show "virtioblk_load s addr len = Inr None \<longleftrightarrow> len \<noteq> 1 \<and> len \<noteq> 2 \<and> len \<noteq> 4 \<and> len \<noteq> 8"
    by (auto simp: virtioblk_load_def split: sum.splits)
  show "virtioblk_load s addr 1 = Inr (Some [0])"
    by (simp add: virtioblk_load_def le_bytes_zero1)
  show "virtioblk_load s addr 2 = Inr (Some [0, 0])"
    by (simp add: virtioblk_load_def le_bytes_zero2)
  show "virtioblk_load s addr 4 =
     map_sum id (\<lambda>val. Some (le_bytes 4 val)) (virtio_mmio_read s (ucast addr) 2)"
    by (simp add: virtioblk_load_def split: sum.splits)
  show "(\<exists>u'. sifive_uart_load u addr len = Inr (None, u')) \<longleftrightarrow> 0x1000 \<le> addr \<or> 4 < len"
    by (auto simp: sifive_uart_load_def Let_def split: prod.splits)
qed

text \<open>
  C8, as the claim has it, fails: a 3-byte load at offset 0 of the block device returns
  false; a 4-byte load there returns the magic value, not zeros; a 1-byte load far
  outside any window returns true; an 8-byte load at offset 0 of the UART returns false,
  and a 4-byte load at its offset \<open>0x1c\<close> aborts.
\<close>

theorem load_return_value_counterexample:
  "virtioblk_load ring_blk 0 3 = Inr None \<and>
   virtioblk_load ring_blk 0 4 = Inr (Some [0x76, 0x69, 0x72, 0x74]) \<and>
   virtioblk_load ring_blk 0xffffffff00000000 1 = Inr (Some [0]) \<and>
   sifive_uart_load idle_uart 0 8 = Inr (None, idle_uart) \<and>
   sifive_uart_load idle_uart 0x1c 4 = Inl Abort_called"
  by (simp add: virtioblk_load_def virtio_mmio_read_def VIRTIO_MMIO_CONFIG_def le_bytes4
      le_bytes_zero1 sifive_uart_load_def)


section \<open>Queue notification\<close>

text \<open>
  C5, as the code has it. With \<open>manual_recv\<close> set, \<open>queue_notify\<close> does nothing.
  Otherwise, when \<open>get_desc_rw_size\<close> and the callback return at every head met and
  the callback leaves \<open>last_avail_idx\<close> alone (the predicate \<open>I\<close> holds of the states
  the loop goes through), \<open>queue_notify\<close> returns, and what it returns is a walk of the
  indices from \<open>last_avail_idx\<close> towards \<open>avail.idx\<close> modulo \<open>2^16\<close>
  (\<open>walk_ok\<close>) in which every step is the one \<open>notify_walk\<close> allows: a head whose chain
  \<open>get_desc_rw_size\<close> refuses is skipped, the callback not applied, and every other
  head is handed to the callback once, with the sizes of its chain, the walk going on
  from the device and the memory the callback left. A returned value \<open>\<ge> 0\<close>, like a
  skip, advances past the head; a value \<open>< 0\<close> ends the loop with \<open>last_avail_idx\<close>
  at that head; with no such value \<open>last_avail_idx\<close> ends equal to \<open>avail.idx\<close>.
\<close>

theorem queue_notify_walks:
  fixes recv :: "'a VIRTIODevice_scheme recv_func"
  assumes "I s sim"
    and "avail = virtio_read16 sim (avail_addr (queue s q) + 2)"
    and "\<And>s sim. I s sim \<Longrightarrow> last_avail_idx (queue s q) \<noteq> avail \<Longrightarrow>
      (get_desc_rw_size s sim q (avail_head s sim q) = Some Rw_malformed \<and> I (advance q s) sim) \<or>
      (\<exists>r w ret s' sim'.
          get_desc_rw_size s sim q (avail_head s sim q) = Some (Rw_size r w) \<and>
          recv s sim q (avail_head s sim q) r w = Some (Inr (ret, s', sim')) \<and>
          last_avail_idx (queue s' q) = last_avail_idx (queue s q) \<and>
          (0 \<le> ret \<longrightarrow> I (advance q s') sim'))"
  shows "(manual_recv (queue s q) \<longrightarrow> queue_notify recv s sim q = Some (Inr ([], s, sim))) \<and>
         (\<not> manual_recv (queue s q) \<longrightarrow>
            (\<exists>visits s' sim'. queue_notify recv s sim q = Some (Inr (visits, s', sim')) \<and>
               walk_ok (last_avail_idx (queue s q)) avail visits (last_avail_idx (queue s' q)) \<and>
               notify_walk recv q avail s sim visits s' sim'))"
proof (intro conjI impI)
  assume "manual_recv (queue s q)"
  then show "queue_notify recv s sim q = Some (Inr ([], s, sim))"
    by (simp add: queue_notify_def)
next
  assume nm: "\<not> manual_recv (queue s q)"
  from notify_loop_walk [of I q avail recv s sim _ "[]", OF assms(3) assms(1) refl]
  obtain vs s' sim' where
    "queue_notify_loop recv q avail [] s sim = Some (Inr (vs, s', sim'))"
    "walk_ok (last_avail_idx (queue s q)) avail vs (last_avail_idx (queue s' q))"
    "notify_walk recv q avail s sim vs s' sim'"
    by auto
  then show "\<exists>visits s' sim'. queue_notify recv s sim q = Some (Inr (visits, s', sim')) \<and>
               walk_ok (last_avail_idx (queue s q)) avail visits (last_avail_idx (queue s' q)) \<and>
               notify_walk recv q avail s sim visits s' sim'"
    using nm assms(2) by (auto simp: queue_notify_def Let_def)
qed

theorem queue_notify_walks_witness:
  "ring_inv ring_blk ring_sim \<and>
   virtio_read16 ring_sim (avail_addr (queue ring_blk 0) + 2) = 2 \<and>
   \<not> manual_recv (queue ring_blk 0) \<and>
   (\<exists>visits s' sim'.
      queue_notify virtio_block_recv_request ring_blk ring_sim 0 = Some (Inr (visits, s', sim')) \<and>
      walk_ok 0 2 visits (last_avail_idx (queue s' 0)) \<and>
      notify_walk virtio_block_recv_request 0 2 ring_blk ring_sim visits s' sim') \<and>
   walk_ok 0 2 [Skipped 0 2, Called 1 1 16 0 0] 2 \<and>
   notify_walk virtio_block_recv_request 0 2 ring_blk ring_sim
     [Skipped 0 2, Called 1 1 16 0 0] (advance 0 ring_noted) ring_sim"
proof -
  have i: "ring_inv ring_blk ring_sim" by (simp add: ring_inv_def)
  have m: "\<not> manual_recv (queue ring_blk 0)" by (simp add: ring_queue0)
  have l0: "last_avail_idx (queue ring_blk 0) = 0" by (simp add: ring_queue0)
  note t = queue_notify_walks [of ring_inv ring_blk ring_sim 2 0 virtio_block_recv_request,
      OF i ring_avail_idx [symmetric] ring_step]
  from t m l0 have e: "\<exists>visits s' sim'.
      queue_notify virtio_block_recv_request ring_blk ring_sim 0 = Some (Inr (visits, s', sim')) \<and>
      walk_ok 0 2 visits (last_avail_idx (queue s' 0)) \<and>
      notify_walk virtio_block_recv_request 0 2 ring_blk ring_sim visits s' sim'"
    by simp
  then have w: "walk_ok 0 2 [Skipped 0 2, Called 1 1 16 0 0] 2"
    and k: "notify_walk virtio_block_recv_request 0 2 ring_blk ring_sim
              [Skipped 0 2, Called 1 1 16 0 0] (advance 0 ring_noted) ring_sim"
    by (simp_all add: ring_notify_eval ring_last_noted)
  show ?thesis using i ring_avail_idx m e w k by (intro conjI)
qed

text \<open>
  C5, as the claim has it, fails: on the example memory the available ring holds the
  heads 2 and 1; the chain at head 2 is malformed, the callback is not called for it,
  and \<open>last_avail_idx\<close> still moves past it to \<open>avail.idx = 2\<close>.
\<close>

theorem notify_skips_malformed_counterexample:
  "queue_notify virtio_block_recv_request ring_blk ring_sim 0 =
     Some (Inr ([Skipped 0 2, Called 1 1 16 0 0], advance 0 ring_noted, ring_sim)) \<and>
   last_avail_idx (queue (advance 0 ring_noted) 0) = 2"
  by (simp add: ring_notify_eval ring_last_noted)

end
